theory Spec2Isabelle
  imports Complex_Main
begin

section \<open>Sale payments: data model\<close>

text \<open>
  A shallow embedding of \<^verbatim>\<open>sale.py\<close> (module \<^verbatim>\<open>sale_payment\<close>). Python
  \<^verbatim>\<open>Decimal\<close> amounts are exact rationals (the context precision of 28 digits is
  not reached by the amounts of a sale), record ids are integers, and the string
  valued selection fields (\<^verbatim>\<open>state\<close>, \<^verbatim>\<open>invoice_method\<close>) stay strings, compared
  with the literals the source compares them with. A field that may hold \<^verbatim>\<open>None\<close>
  is an \<open>option\<close>.
\<close>

type_synonym decimal = rat
type_synonym ident = int

text \<open>
  The exceptions the code can raise. \<open>UserError key args\<close> is
  \<^verbatim>\<open>raise_user_error(key, args)\<close> with the key of \<^verbatim>\<open>_error_messages\<close>;
  the others are the interpreter's own.
\<close>

datatype error =
    UserError string "string option list"
  | AttributeError string
  | UnboundLocalError string
  | TypeError
  | KeyError
  | DataError

text \<open>An account move line, as far as the code reads it.\<close>

record move_line =
  debit :: decimal
  credit :: decimal
  account :: ident
  reconciliation :: "ident option"

text \<open>
  A payment is a line of a statement (\<^verbatim>\<open>account.statement.line\<close>). \<open>move\<close> is
  \<^verbatim>\<open>payment.move\<close>, given by the ids of \<^verbatim>\<open>payment.move.lines\<close>; \<open>None\<close> when
  the payment has no move.
\<close>

record payment =
  payment_id :: ident
  amount :: decimal
  payment_party :: "ident option"
  payment_invoice :: "ident option"
  payment_account :: "ident option"
  payment_statement :: "ident option"
  payment_date :: "int option"
  payment_description :: "string option"
  payment_sale :: "ident option"
  move :: "ident list option"

record invoice =
  invoice_state :: string
  invoice_date :: "int option"
  accounting_date :: "int option"
  invoice_description :: "string option"
  invoice_party :: ident
  lines_to_pay :: "ident list"

record device =
  journal :: "ident option"
  journals :: "ident list"

record party =
  party_name :: string
  account_receivable :: "ident option"
  sale_invoice_grouping_method :: "string option"

record user =
  user_id :: ident
  user_sale_device :: "device option"

text \<open>
  A sale. \<open>payments\<close> is the One2Many of the statement lines whose \<^verbatim>\<open>sale\<close> is this
  sale (they are owned by it); \<open>invoices\<close> holds the ids the sale module's function
  field returns (invoices are shared, so they live in a table of their own).
\<close>

record sale =
  sale_id :: ident
  state :: string
  total_amount :: "decimal option"
  invoice_method :: string
  reference :: "string option"
  number :: "string option"
  description :: "string option"
  party :: ident
  sale_device :: "device option"
  currency_digits :: int
  payments :: "payment list"
  invoices :: "ident list"

section \<open>Payment aggregator\<close>

text \<open>
  A getter returns \<^verbatim>\<open>{name: {sale.id: amount}}\<close>: a dict of dicts.
\<close>

type_synonym amounts = "ident \<rightharpoonup> decimal"
type_synonym field_values = "string \<rightharpoonup> amounts"

text \<open>\<^verbatim>\<open>{s.id: Decimal(0) for s in sales}\<close>: a later entry of the same key replaces
  an earlier one.\<close>

fun zero_amounts :: "sale list \<Rightarrow> amounts \<Rightarrow> amounts" where
  "zero_amounts [] m = m"
| "zero_amounts (s # ss) m = zero_amounts ss (m(sale_id s \<mapsto> 0))"

text \<open>\<^verbatim>\<open>{n: {...} for n in names}\<close>\<close>

fun zero_fields :: "string list \<Rightarrow> sale list \<Rightarrow> field_values \<Rightarrow> field_values" where
  "zero_fields [] sales r = r"
| "zero_fields (n # ns) sales r = zero_fields ns sales (r(n \<mapsto> zero_amounts sales Map.empty))"

text \<open>\<^verbatim>\<open>result[name][sale.id] += payment.amount\<close>: both subscripts raise
  \<^verbatim>\<open>KeyError\<close> on a missing key.\<close>

definition add_amount :: "field_values \<Rightarrow> string \<Rightarrow> ident \<Rightarrow> decimal \<Rightarrow> error + field_values" where
  "add_amount result name sid a =
     (case result name of
        None \<Rightarrow> Inl KeyError
      | Some m \<Rightarrow>
          (case m sid of
             None \<Rightarrow> Inl KeyError
           | Some v \<Rightarrow> Inr (result(name \<mapsto> m(sid \<mapsto> v + a)))))"

text \<open>\<^verbatim>\<open>for payment in sale.payments\<close>\<close>

fun paid_payments :: "payment list \<Rightarrow> string \<Rightarrow> ident \<Rightarrow> field_values \<Rightarrow> error + field_values" where
  "paid_payments [] name sid result = Inr result"
| "paid_payments (p # ps) name sid result =
     (case add_amount result name sid (amount p) of
        Inl e \<Rightarrow> Inl e
      | Inr r \<Rightarrow> paid_payments ps name sid r)"

text \<open>\<^verbatim>\<open>for sale in sales\<close>\<close>

fun paid_sales :: "sale list \<Rightarrow> string \<Rightarrow> field_values \<Rightarrow> error + field_values" where
  "paid_sales [] name result = Inr result"
| "paid_sales (s # ss) name result =
     (case paid_payments (payments s) name (sale_id s) result of
        Inl e \<Rightarrow> Inl e
      | Inr r \<Rightarrow> paid_sales ss name r)"

text \<open>\<^verbatim>\<open>for name in names\<close>\<close>

fun paid_names :: "string list \<Rightarrow> sale list \<Rightarrow> field_values \<Rightarrow> error + field_values" where
  "paid_names [] sales result = Inr result"
| "paid_names (n # ns) sales result =
     (case paid_sales sales n result of
        Inl e \<Rightarrow> Inl e
      | Inr r \<Rightarrow> paid_names ns sales r)"

text \<open>\<^verbatim>\<open>Sale.get_paid_amount(cls, sales, names)\<close>\<close>

definition get_paid_amount :: "sale list \<Rightarrow> string list \<Rightarrow> error + field_values" where
  "get_paid_amount sales names = paid_names names sales (zero_fields names sales Map.empty)"

text \<open>
  \<^verbatim>\<open>sale.paid_amount\<close>, the attribute of one record: the framework calls the getter
  of the function field and takes the entry of the record.
\<close>

definition paid_amount :: "sale \<Rightarrow> error + decimal" where
  "paid_amount s =
     (case get_paid_amount [s] [''paid_amount''] of
        Inl e \<Rightarrow> Inl e
      | Inr r \<Rightarrow>
          (case r ''paid_amount'' of
             None \<Rightarrow> Inl KeyError
           | Some m \<Rightarrow> (case m (sale_id s) of None \<Rightarrow> Inl KeyError | Some v \<Rightarrow> Inr v)))"

text \<open>
  \<^verbatim>\<open>s.total_amount - s.paid_amount\<close>: both attributes are read, then subtracted;
  \<^verbatim>\<open>None - Decimal\<close> is a \<^verbatim>\<open>TypeError\<close>.
\<close>

definition residual_of :: "sale \<Rightarrow> error + decimal" where
  "residual_of s =
     (case paid_amount s of
        Inl e \<Rightarrow> Inl e
      | Inr p \<Rightarrow> (case total_amount s of None \<Rightarrow> Inl TypeError | Some t \<Rightarrow> Inr (t - p)))"

text \<open>\<^verbatim>\<open>{s.id: s.total_amount - s.paid_amount for s in sales}\<close>\<close>

fun residual_sales :: "sale list \<Rightarrow> amounts \<Rightarrow> error + amounts" where
  "residual_sales [] m = Inr m"
| "residual_sales (s # ss) m =
     (case residual_of s of
        Inl e \<Rightarrow> Inl e
      | Inr v \<Rightarrow> residual_sales ss (m(sale_id s \<mapsto> v)))"

text \<open>\<^verbatim>\<open>{n: {...} for n in names}\<close>: the inner dict is built once per name.\<close>

fun residual_names :: "string list \<Rightarrow> sale list \<Rightarrow> field_values \<Rightarrow> error + field_values" where
  "residual_names [] sales r = Inr r"
| "residual_names (n # ns) sales r =
     (case residual_sales sales Map.empty of
        Inl e \<Rightarrow> Inl e
      | Inr m \<Rightarrow> residual_names ns sales (r(n \<mapsto> m)))"

text \<open>\<^verbatim>\<open>Sale.get_residual_amount(cls, sales, names)\<close>\<close>

definition get_residual_amount :: "sale list \<Rightarrow> string list \<Rightarrow> error + field_values" where
  "get_residual_amount sales names = residual_names names sales Map.empty"

text \<open>\<^verbatim>\<open>result[name][sale.id]\<close> of a getter's result, \<open>None\<close> when there is none.\<close>

definition lookup_amount :: "error + field_values \<Rightarrow> string \<Rightarrow> ident \<Rightarrow> decimal option" where
  "lookup_amount res name sid =
     (case res of
        Inl e \<Rightarrow> None
      | Inr r \<Rightarrow> (case r name of None \<Rightarrow> None | Some m \<Rightarrow> m sid))"

section \<open>Residual query engine\<close>







subsection \<open>The SQL functions of the join condition\<close>

text \<open>\<^verbatim>\<open>POSITION(c IN s)\<close>: the index, from 1, of the first \<open>c\<close> in \<open>s\<close>; 0 when
  there is none.\<close>

fun position :: "char \<Rightarrow> string \<Rightarrow> nat" where
  "position c [] = 0"
| "position c (x # xs) =
     (if x = c then 1 else (case position c xs of 0 \<Rightarrow> 0 | Suc n \<Rightarrow> Suc (Suc n)))"

text \<open>\<^verbatim>\<open>SUBSTRING(s FROM n)\<close>: the characters of \<open>s\<close> from index \<open>n\<close> (counted
  from 1) on.\<close>

definition substring :: "string \<Rightarrow> nat \<Rightarrow> string" where
  "substring s n = drop (n - 1) s"

text \<open>The value of a decimal digit: its place among the ten digits.\<close>

definition digit_of :: "char \<Rightarrow> nat option" where
  "digit_of c = (case position c ''0123456789'' of 0 \<Rightarrow> None | Suc d \<Rightarrow> Some d)"

fun digits_value :: "string \<Rightarrow> nat \<Rightarrow> nat option" where
  "digits_value [] n = Some n"
| "digits_value (c # cs) n =
     (case digit_of c of None \<Rightarrow> None | Some d \<Rightarrow> digits_value cs (10 * n + d))"

text \<open>The white space the integer input skips before and after the number: space,
  tab, line feed, vertical tab, form feed, carriage return.\<close>

definition is_space :: "char \<Rightarrow> bool" where
  "is_space c = (c \<in> set [CHR '' '', CHR 0x09, CHR 0x0A, CHR 0x0B, CHR 0x0C, CHR 0x0D])"

definition trim :: "string \<Rightarrow> string" where
  "trim s = rev (dropWhile is_space (rev (dropWhile is_space s)))"

text \<open>\<^verbatim>\<open>INTEGER\<close> is a 32-bit signed integer: a value out of its range is an error.\<close>

definition int4 :: "int \<Rightarrow> int option" where
  "int4 k = (if - 2147483648 \<le> k \<and> k \<le> 2147483647 then Some k else None)"

text \<open>
  \<^verbatim>\<open>CAST(s AS INTEGER)\<close>, as PostgreSQL reads an integer from text: white space, an
  optional sign, at least one decimal digit, white space; the value must be in the
  range of \<^verbatim>\<open>INTEGER\<close>. \<open>None\<close> is the database's error on any other text (invalid
  input syntax, or out of range).
\<close>

definition cast_integer :: "string \<Rightarrow> int option" where
  "cast_integer s =
     (case trim s of
        [] \<Rightarrow> None
      | c # cs \<Rightarrow>
          if c = CHR ''-'' then
            (if cs = [] then None
             else (case digits_value cs 0 of None \<Rightarrow> None | Some n \<Rightarrow> int4 (- int n)))
          else if c = CHR ''+'' then
            (if cs = [] then None
             else (case digits_value cs 0 of None \<Rightarrow> None | Some n \<Rightarrow> int4 (int n)))
          else (case digits_value (c # cs) 0 of None \<Rightarrow> None | Some n \<Rightarrow> int4 (int n)))"

text \<open>
  \<^verbatim>\<open>Cast(Substring(invoiceline.origin, Position(',', invoiceline.origin) + Literal(1)), INTEGER)\<close>
  on text that is not \<^verbatim>\<open>NULL\<close>.
\<close>

definition origin_id :: "string \<Rightarrow> int option" where
  "origin_id s = cast_integer (substring s (position (CHR '','') s + 1))"




subsection \<open>Joins\<close>




subsection \<open>The query\<close>







section \<open>The record store, the collaborators and the trace\<close>

text \<open>
  The operations below read and write records through the framework. The store maps
  an id to its record (an id the code holds is the id of a record, as foreign keys
  guarantee); the draft statements are searched, so they are a table.
\<close>

record statement =
  statement_id :: ident
  statement_journal :: ident
  statement_state :: string
  statement_date :: int

record db =
  sale_tab :: "ident \<Rightarrow> sale"
  invoice_tab :: "ident \<Rightarrow> invoice"
  party_tab :: "ident \<Rightarrow> party"
  ledger :: "ident \<Rightarrow> move_line"
  statement_tab :: "statement list"

text \<open>
  \<^verbatim>\<open>invoice._save_values\<close> and \<^verbatim>\<open>payment._save_values\<close>: the fields the code has
  assigned on the instance. \<open>None\<close> for a date or the party: the field was not
  assigned, the key is absent. The description is always assigned (to the sale's
  reference, which may be \<^verbatim>\<open>None\<close>), and so is the payment's invoice.
\<close>

record invoice_values =
  new_invoice_date :: "int option"
  new_accounting_date :: "int option"
  new_description :: "string option"

record payment_values =
  new_invoice :: ident
  new_party :: "ident option"

text \<open>
  What an operation does to the outside, in order: the calls of the collaborators
  and the batch writes. A staged payment write carries the id of the sale that owns
  the payment, to find it in the store.
\<close>

datatype event =
    Quote ident
  | Confirm ident
  | Process ident
  | InvoiceWrite "(ident \<times> invoice_values) list"
  | InvoicePost "ident list"
  | StatementLineWrite "(ident \<times> ident \<times> payment_values) list"
  | Do "ident list"
  | WorkflowToEnd "ident list"
  | SetNumber ident
  | StatementLineSave ident ident
  | SaleSave ident
  | Reconcile "ident list"

type_synonym world = "db \<times> event list"

text \<open>An operation raises, or returns a value; either way it leaves a world.\<close>

type_synonym 'a result = "(error \<times> world) + ('a \<times> world)"

definition world_of :: "'a result \<Rightarrow> world" where
  "world_of r = (case r of Inl (e, w) \<Rightarrow> w | Inr (x, w) \<Rightarrow> w)"

text \<open>
  The collaborators this module calls and does not define: the sale's workflow
  (\<^verbatim>\<open>quote\<close>, \<^verbatim>\<open>confirm\<close>, \<^verbatim>\<open>process\<close>, \<^verbatim>\<open>do\<close>, \<^verbatim>\<open>is_done\<close>,
  \<^verbatim>\<open>set_number\<close>), \<^verbatim>\<open>Invoice.post\<close>, \<^verbatim>\<open>Line.reconcile\<close>, \<^verbatim>\<open>Date.today\<close> and
  the id the database gives a new statement line. They are parameters: a theorem
  holds for whatever they do to the store.
\<close>

record collab =
  quote :: "db \<Rightarrow> ident \<Rightarrow> error + db"
  confirm :: "db \<Rightarrow> ident \<Rightarrow> error + db"
  process :: "db \<Rightarrow> ident \<Rightarrow> error + db"
  post :: "db \<Rightarrow> ident list \<Rightarrow> error + db"
  is_done :: "db \<Rightarrow> ident \<Rightarrow> bool"
  do_sales :: "db \<Rightarrow> ident list \<Rightarrow> error + db"
  today :: int
  set_number :: "db \<Rightarrow> ident \<Rightarrow> error + db"
  new_line_id :: "db \<Rightarrow> ident"
  reconcile :: "db \<Rightarrow> ident list \<Rightarrow> error + db"

text \<open>A call of a collaborator: the call is traced, then it raises or returns the
  new store.\<close>

definition call :: "(db \<Rightarrow> error + db) \<Rightarrow> event \<Rightarrow> world \<Rightarrow> unit result" where
  "call f ev w =
     (case f (fst w) of
        Inl e \<Rightarrow> Inl (e, (fst w, snd w @ [ev]))
      | Inr d \<Rightarrow> Inr ((), (d, snd w @ [ev])))"

text \<open>Python's truth value of a string or \<^verbatim>\<open>None\<close>.\<close>

definition truthy :: "string option \<Rightarrow> bool" where
  "truthy x = (case x of None \<Rightarrow> False | Some s \<Rightarrow> s \<noteq> [])"

section \<open>Sale settlement workflow\<close>

text \<open>
  The locals of \<^verbatim>\<open>workflow_to_end\<close> that its first loop leaves to the rest:
  \<^verbatim>\<open>invoices\<close> (the staged writes), \<^verbatim>\<open>to_post\<close> (a set, kept in the order of
  insertion) and the loop variable \<^verbatim>\<open>invoice\<close>, which stays bound to the last
  invoice the loop visited (\<open>None\<close>: never bound).
\<close>

record frame =
  staged_invoices :: "(ident \<times> invoice_values) list"
  to_post :: "ident list"
  invoice_var :: "ident option"

text \<open>
  Lines 65-70: \<^verbatim>\<open>quote\<close> a draft, \<^verbatim>\<open>confirm\<close> a quotation, \<^verbatim>\<open>process\<close> a
  confirmed sale; the state is read again after each step.
\<close>

definition lifecycle :: "collab \<Rightarrow> ident \<Rightarrow> world \<Rightarrow> unit result" where
  "lifecycle env sid w =
     (case (if state (sale_tab (fst w) sid) = ''draft''
            then call (\<lambda>d. quote env d sid) (Quote sid) w else Inr ((), w)) of
        Inl e \<Rightarrow> Inl e
      | Inr (u1, w1) \<Rightarrow>
          (case (if state (sale_tab (fst w1) sid) = ''quotation''
                 then call (\<lambda>d. confirm env d sid) (Confirm sid) w1 else Inr ((), w1)) of
             Inl e \<Rightarrow> Inl e
           | Inr (u2, w2) \<Rightarrow>
               (if state (sale_tab (fst w2) sid) = ''confirmed''
                then call (\<lambda>d. process env d sid) (Process sid) w2 else Inr ((), w2))))"

text \<open>
  Lines 78-87, \<^verbatim>\<open>for invoice in sale.invoices\<close>: the variable is bound, an invoice
  that is not a draft is skipped, a draft gets the dates it lacks and the sale's
  reference, and is staged and marked for posting.
\<close>

fun stage_invoices :: "db \<Rightarrow> int \<Rightarrow> string option \<Rightarrow> ident list \<Rightarrow> frame \<Rightarrow> frame" where
  "stage_invoices d day ref [] f = f"
| "stage_invoices d day ref (i # rest) f =
     (if invoice_state (invoice_tab d i) \<noteq> ''draft''
      then stage_invoices d day ref rest (f\<lparr>invoice_var := Some i\<rparr>)
      else stage_invoices d day ref rest
        \<lparr>staged_invoices = staged_invoices f @
           [(i, \<lparr>new_invoice_date = (if invoice_date (invoice_tab d i) = None then Some day else None),
                 new_accounting_date = (if accounting_date (invoice_tab d i) = None then Some day else None),
                 new_description = ref\<rparr>)],
         to_post = (if i \<in> set (to_post f) then to_post f else to_post f @ [i]),
         invoice_var = Some i\<rparr>)"

text \<open>Lines 64-87, the body of the first loop for one sale.\<close>

definition advance_sale :: "collab \<Rightarrow> ident \<Rightarrow> frame \<Rightarrow> world \<Rightarrow> frame result" where
  "advance_sale env sid f w =
     (case lifecycle env sid w of
        Inl e \<Rightarrow> Inl e
      | Inr (u, w1) \<Rightarrow>
          (let s = sale_tab (fst w1) sid in
           if invoices s = [] \<and> invoice_method s = ''order''
           then Inl (UserError ''not_customer_invoice'' [reference s], w1)
           else if invoices s \<noteq> [] \<and> \<not> truthy (sale_invoice_grouping_method (party_tab (fst w1) (party s)))
           then Inr (stage_invoices (fst w1) (today env) (reference s) (invoices s) f, w1)
           else Inr (f, w1)))"

fun advance_sales :: "collab \<Rightarrow> ident list \<Rightarrow> frame \<Rightarrow> world \<Rightarrow> frame result" where
  "advance_sales env [] f w = Inr (f, w)"
| "advance_sales env (sid # rest) f w =
     (case advance_sale env sid f w of
        Inl e \<Rightarrow> Inl e
      | Inr (f1, w1) \<Rightarrow> advance_sales env rest f1 w1)"

text \<open>\<^verbatim>\<open>Invoice.write(*invoices)\<close>: each staged pair sets its fields on its record.\<close>

definition write_invoice :: "ident \<times> invoice_values \<Rightarrow> db \<Rightarrow> db" where
  "write_invoice iv d =
     (let i = fst iv; v = snd iv; inv = invoice_tab d i
      in d\<lparr>invoice_tab := (invoice_tab d)
             (i := inv\<lparr>invoice_date := (case new_invoice_date v of None \<Rightarrow> invoice_date inv | Some x \<Rightarrow> Some x),
                      accounting_date := (case new_accounting_date v of None \<Rightarrow> accounting_date inv | Some x \<Rightarrow> Some x),
                      invoice_description := new_description v\<rparr>)\<rparr>)"

text \<open>Lines 89-91: \<^verbatim>\<open>Invoice.write(*invoices)\<close>, then \<^verbatim>\<open>Invoice.post(list(to_post))\<close>.\<close>

definition post_invoices :: "collab \<Rightarrow> frame \<Rightarrow> world \<Rightarrow> unit result" where
  "post_invoices env f w =
     call (\<lambda>d. post env d (to_post f)) (InvoicePost (to_post f))
       (fold write_invoice (staged_invoices f) (fst w), snd w @ [InvoiceWrite (staged_invoices f)])"

text \<open>\<^verbatim>\<open>[invoice for invoice in sale.invoices if invoice and invoice.state == 'posted']\<close>\<close>

definition posted_invoices :: "db \<Rightarrow> sale \<Rightarrow> ident list" where
  "posted_invoices d s = filter (\<lambda>i. invoice_state (invoice_tab d i) = ''posted'') (invoices s)"

text \<open>
  Lines 96-108, \<^verbatim>\<open>for payment in sale.payments\<close>. The comprehension has a scope of
  its own, so the \<^verbatim>\<open>invoice\<close> of \<^verbatim>\<open>invoice.party\<close> is the variable the first loop
  left (\<open>iv\<close>); reading it unbound raises.
\<close>

fun attribute_payments ::
  "db \<Rightarrow> ident option \<Rightarrow> ident \<Rightarrow> payment list \<Rightarrow> (ident \<times> ident \<times> payment_values) list
     \<Rightarrow> error + (ident \<times> ident \<times> payment_values) list" where
  "attribute_payments d iv sid [] to_write = Inr to_write"
| "attribute_payments d iv sid (p # ps) to_write =
     (case posted_invoices d (sale_tab d sid) of
        [] \<Rightarrow> attribute_payments d iv sid ps to_write
      | i0 # others \<Rightarrow>
          (case iv of
             None \<Rightarrow> Inl (UnboundLocalError ''invoice'')
           | Some j \<Rightarrow>
               attribute_payments d iv sid ps
                 (to_write @
                   [(sid, payment_id p,
                     \<lparr>new_invoice = i0,
                      new_party = (if payment_party p \<noteq> Some (invoice_party (invoice_tab d j))
                                   then Some (invoice_party (invoice_tab d j)) else None)\<rparr>)])))"

text \<open>Lines 95-111, the second loop: the payments of each sale, then \<^verbatim>\<open>is_done\<close>.\<close>

fun settle_sales ::
  "collab \<Rightarrow> db \<Rightarrow> ident option \<Rightarrow> ident list
     \<Rightarrow> (ident \<times> ident \<times> payment_values) list \<times> ident list
     \<Rightarrow> error + (ident \<times> ident \<times> payment_values) list \<times> ident list" where
  "settle_sales env d iv [] st = Inr st"
| "settle_sales env d iv (sid # rest) st =
     (case attribute_payments d iv sid (payments (sale_tab d sid)) (fst st) of
        Inl e \<Rightarrow> Inl e
      | Inr to_write \<Rightarrow>
          settle_sales env d iv rest
            (to_write, if is_done env d sid then snd st @ [sid] else snd st))"

text \<open>\<^verbatim>\<open>StatementLine.write(*to_write)\<close>: each staged payment gets its invoice, and
  its party where one was assigned.\<close>

definition write_payment :: "ident \<times> ident \<times> payment_values \<Rightarrow> db \<Rightarrow> db" where
  "write_payment spv d =
     (let sid = fst spv; pid = fst (snd spv); v = snd (snd spv); s = sale_tab d sid
      in d\<lparr>sale_tab := (sale_tab d)
             (sid := s\<lparr>payments :=
                map (\<lambda>p. if payment_id p = pid
                          then p\<lparr>payment_invoice := Some (new_invoice v),
                                 payment_party := (case new_party v of None \<Rightarrow> payment_party p | Some q \<Rightarrow> Some q)\<rparr>
                          else p)
                  (payments s)\<rparr>)\<rparr>)"

definition write_payments :: "(ident \<times> ident \<times> payment_values) list \<Rightarrow> world \<Rightarrow> world" where
  "write_payments to_write w = (fold write_payment to_write (fst w), snd w @ [StatementLineWrite to_write])"

text \<open>\<^verbatim>\<open>Sale.workflow_to_end(cls, sales)\<close>. Its call is traced first.\<close>

definition workflow_to_end :: "collab \<Rightarrow> ident list \<Rightarrow> world \<Rightarrow> unit result" where
  "workflow_to_end env sales w0 =
     (case advance_sales env sales \<lparr>staged_invoices = [], to_post = [], invoice_var = None\<rparr>
             (fst w0, snd w0 @ [WorkflowToEnd sales]) of
        Inl e \<Rightarrow> Inl e
      | Inr (f, w1) \<Rightarrow>
          (case (if to_post f \<noteq> [] then post_invoices env f w1 else Inr ((), w1)) of
             Inl e \<Rightarrow> Inl e
           | Inr (u, w2) \<Rightarrow>
               (case settle_sales env (fst w2) (invoice_var f) sales ([], []) of
                  Inl e \<Rightarrow> Inl (e, w2)
                | Inr (to_write, to_do) \<Rightarrow>
                    (let w3 = (if to_write \<noteq> [] then write_payments to_write w2 else w2)
                     in if to_do \<noteq> [] then call (\<lambda>d. do_sales env d to_do) (Do to_do) w3
                        else Inr ((), w3)))))"

section \<open>Payment wizard controller\<close>

text \<open>The values of the form the transition reads: the journal (with its name, for
  the error message) and the amount.\<close>

record payment_form =
  form_journal :: ident
  form_journal_name :: string
  payment_amount :: decimal

text \<open>What \<^verbatim>\<open>default_start\<close> returns.\<close>

record form_defaults =
  default_journal :: "ident option"
  default_journals :: "ident list"
  default_payment_amount :: "decimal option"
  default_currency_digits :: int
  default_party :: ident

text \<open>
  \<^verbatim>\<open>WizardSalePayment.default_start\<close>, given the active sale and the user of the
  transaction. \<^verbatim>\<open>sale.sale_device or user.sale_device or False\<close> is \<open>None\<close> here
  when it is \<^verbatim>\<open>False\<close>; the first value of the dict reads \<^verbatim>\<open>sale_device.journal\<close>.
\<close>

definition default_start :: "sale \<Rightarrow> user \<Rightarrow> error + form_defaults" where
  "default_start s usr =
     (let dev = (case sale_device s of Some x \<Rightarrow> Some x | None \<Rightarrow> user_sale_device usr)
      in if user_id usr \<noteq> 0 \<and> dev = None then Inl (UserError ''not_sale_device'' [])
         else
           (case dev of
              None \<Rightarrow> Inl (AttributeError ''journal'')
            | Some x \<Rightarrow>
                (case paid_amount s of
                   Inl e \<Rightarrow> Inl e
                 | Inr paid \<Rightarrow>
                     if paid \<noteq> 0 then
                       (case total_amount s of
                          None \<Rightarrow> Inl TypeError
                        | Some t \<Rightarrow>
                            Inr \<lparr>default_journal = journal x, default_journals = journals x,
                                 default_payment_amount = Some (t - paid),
                                 default_currency_digits = currency_digits s,
                                 default_party = party s\<rparr>)
                     else
                       Inr \<lparr>default_journal = journal x, default_journals = journals x,
                            default_payment_amount = total_amount s,
                            default_currency_digits = currency_digits s,
                            default_party = party s\<rparr>)))"

text \<open>
  \<^verbatim>\<open>Statement.search([('journal', '=', form.journal), ('state', '=', 'draft')], order=[('date', 'DESC')])\<close>
\<close>

definition draft_statements :: "db \<Rightarrow> ident \<Rightarrow> statement list" where
  "draft_statements d j =
     sort_key (\<lambda>st. - statement_date st)
       (filter (\<lambda>st. statement_journal st = j \<and> statement_state st = ''draft'') (statement_tab d))"

text \<open>Lines 278-287: the new statement line, saved; the sale's One2Many holds it
  from then on.\<close>

definition save_payment :: "collab \<Rightarrow> payment_form \<Rightarrow> ident \<Rightarrow> ident \<Rightarrow> ident \<Rightarrow> world \<Rightarrow> world" where
  "save_payment env form active_id st_id acc w =
     (let d = fst w; s = sale_tab d active_id;
          p = \<lparr>payment_id = new_line_id env d, amount = payment_amount form,
               payment_party = Some (party s), payment_invoice = None,
               payment_account = Some acc, payment_statement = Some st_id,
               payment_date = Some (today env), payment_description = number s,
               payment_sale = Some active_id, move = None\<rparr>
      in (d\<lparr>sale_tab := (sale_tab d)(active_id := s\<lparr>payments := payments s @ [p]\<rparr>)\<rparr>,
          snd w @ [StatementLineSave active_id (new_line_id env d)]))"

text \<open>
  Lines 259-287 of \<^verbatim>\<open>transition_pay_\<close>: the draft statements of the journal, the
  sale's number, the party's receivable account (\<^verbatim>\<open>a and a.id or raise\<close>: an id
  of 0 is false too), and the payment when the amount is not zero.
\<close>

definition pay_commit :: "collab \<Rightarrow> payment_form \<Rightarrow> ident \<Rightarrow> world \<Rightarrow> unit result" where
  "pay_commit env form active_id w =
     (case draft_statements (fst w) (form_journal form) of
        [] \<Rightarrow> Inl (UserError ''not_draft_statement'' [Some (form_journal_name form)], w)
      | st # others \<Rightarrow>
          (case (if \<not> truthy (number (sale_tab (fst w) active_id))
                 then call (\<lambda>d. set_number env d active_id) (SetNumber active_id) w
                 else Inr ((), w)) of
             Inl e \<Rightarrow> Inl e
           | Inr (u, w1) \<Rightarrow>
               (let pty = party_tab (fst w1) (party (sale_tab (fst w1) active_id))
                in case account_receivable pty of
                     None \<Rightarrow> Inl (UserError ''party_without_account_receivable'' [Some (party_name pty)], w1)
                   | Some a \<Rightarrow>
                       if a = 0
                       then Inl (UserError ''party_without_account_receivable'' [Some (party_name pty)], w1)
                       else if payment_amount form \<noteq> 0
                       then Inr ((), save_payment env form active_id (statement_id st) a w1)
                       else Inr ((), w1))))"

text \<open>
  Lines 289-299: back to \<^verbatim>\<open>start\<close> while the total differs from the paid amount;
  \<^verbatim>\<open>end\<close> for a sale that is not a draft; else the description is set, the sale
  saved and the settlement workflow run on it.
\<close>

definition pay_next :: "collab \<Rightarrow> ident \<Rightarrow> world \<Rightarrow> string result" where
  "pay_next env active_id w =
     (let s = sale_tab (fst w) active_id
      in case paid_amount s of
           Inl e \<Rightarrow> Inl (e, w)
         | Inr paid \<Rightarrow>
             if total_amount s \<noteq> Some paid then Inr (''start'', w)
             else if state s \<noteq> ''draft'' then Inr (''end'', w)
             else
               (case workflow_to_end env [active_id]
                       ((fst w)\<lparr>sale_tab := (sale_tab (fst w))(active_id := s\<lparr>description := reference s\<rparr>)\<rparr>,
                        snd w @ [SaleSave active_id]) of
                  Inl e \<Rightarrow> Inl e
                | Inr (u, w1) \<Rightarrow> Inr (''end'', w1)))"

text \<open>\<^verbatim>\<open>WizardSalePayment.transition_pay_\<close>\<close>

definition transition_pay :: "collab \<Rightarrow> payment_form \<Rightarrow> ident \<Rightarrow> world \<Rightarrow> string result" where
  "transition_pay env form active_id w =
     (case pay_commit env form active_id w of
        Inl e \<Rightarrow> Inl e
      | Inr (u, w1) \<Rightarrow> pay_next env active_id w1)"

section \<open>Ledger reconciler\<close>

text \<open>The locals \<^verbatim>\<open>lines\<close> and \<^verbatim>\<open>amount\<close> of \<^verbatim>\<open>transition_start\<close>.\<close>

type_synonym collected = "ident list \<times> decimal"

text \<open>Lines 317-320, \<^verbatim>\<open>for line in invoice.lines_to_pay\<close>\<close>

fun collect_lines_to_pay :: "db \<Rightarrow> ident list \<Rightarrow> collected \<Rightarrow> collected" where
  "collect_lines_to_pay d [] c = c"
| "collect_lines_to_pay d (l # ls) c =
     (if reconciliation (ledger d l) = None
      then collect_lines_to_pay d ls (fst c @ [l], snd c + (debit (ledger d l) - credit (ledger d l)))
      else collect_lines_to_pay d ls c)"

text \<open>Line 316, \<^verbatim>\<open>for invoice in sale.invoices\<close>\<close>

fun collect_invoices :: "db \<Rightarrow> ident list \<Rightarrow> collected \<Rightarrow> collected" where
  "collect_invoices d [] c = c"
| "collect_invoices d (i # rest) c =
     collect_invoices d rest (collect_lines_to_pay d (lines_to_pay (invoice_tab d i)) c)"

text \<open>
  Lines 324-328, \<^verbatim>\<open>for line in payment.move.lines\<close>. On a line that is not
  reconciled, \<^verbatim>\<open>account.id\<close> is read: with no receivable account (\<open>None\<close>) that
  raises.
\<close>

fun collect_move_lines :: "db \<Rightarrow> ident option \<Rightarrow> ident list \<Rightarrow> collected \<Rightarrow> error + collected" where
  "collect_move_lines d acct [] c = Inr c"
| "collect_move_lines d acct (l # ls) c =
     (if reconciliation (ledger d l) = None then
        (case acct of
           None \<Rightarrow> Inl (AttributeError ''id'')
         | Some a \<Rightarrow>
             if account (ledger d l) = a
             then collect_move_lines d acct ls
                    (fst c @ [l], snd c + (debit (ledger d l) - credit (ledger d l)))
             else collect_move_lines d acct ls c)
      else collect_move_lines d acct ls c)"

text \<open>Lines 321-328, \<^verbatim>\<open>for payment in sale.payments\<close>\<close>

fun collect_payments :: "db \<Rightarrow> ident option \<Rightarrow> payment list \<Rightarrow> collected \<Rightarrow> error + collected" where
  "collect_payments d acct [] c = Inr c"
| "collect_payments d acct (p # ps) c =
     (case move p of
        None \<Rightarrow> collect_payments d acct ps c
      | Some ls \<Rightarrow>
          (case collect_move_lines d acct ls c of
             Inl e \<Rightarrow> Inl e
           | Inr c1 \<Rightarrow> collect_payments d acct ps c1))"

text \<open>Lines 313-330, the body of the loop for one sale.\<close>

definition reconcile_sale :: "collab \<Rightarrow> ident \<Rightarrow> world \<Rightarrow> unit result" where
  "reconcile_sale env sid w =
     (let d = fst w; s = sale_tab d sid; acct = account_receivable (party_tab d (party s))
      in case collect_payments d acct (payments s) (collect_invoices d (invoices s) ([], 0)) of
           Inl e \<Rightarrow> Inl (e, w)
         | Inr c \<Rightarrow>
             if fst c \<noteq> [] \<and> snd c = 0
             then call (\<lambda>d. reconcile env d (fst c)) (Reconcile (fst c)) w
             else Inr ((), w))"

text \<open>\<^verbatim>\<open>WizardSaleReconcile.transition_start\<close>, over the sales of \<^verbatim>\<open>active_ids\<close>.\<close>

fun transition_start :: "collab \<Rightarrow> ident list \<Rightarrow> world \<Rightarrow> string result" where
  "transition_start env [] w = Inr (''end'', w)"
| "transition_start env (sid # rest) w =
     (case reconcile_sale env sid w of
        Inl e \<Rightarrow> Inl e
      | Inr (u, w1) \<Rightarrow> transition_start env rest w1)"

section \<open>Notions of the specification and of the proofs\<close>

subsection \<open>Payment aggregator\<close>

text \<open>The payments of all the entries of a batch that carry the id \<open>k\<close>, summed.\<close>

definition paid_total :: "sale list \<Rightarrow> ident \<Rightarrow> decimal" where
  "paid_total ss k = sum_list (map (\<lambda>s. sum_list (map amount (payments s))) (filter (\<lambda>s. sale_id s = k) ss))"

subsection \<open>The outstanding sales, in the words of the specification\<close>

text \<open>The decimal digits of a natural number, and an integer as Python prints it.\<close>

fun digits_of :: "nat \<Rightarrow> string" where
  "digits_of n =
     (if n < 10 then [''0123456789'' ! n]
      else digits_of (n div 10) @ [''0123456789'' ! (n mod 10)])"

declare digits_of.simps [simp del]

definition decimal_of :: "int \<Rightarrow> string" where
  "decimal_of k = (if k < 0 then CHR ''-'' # digits_of (nat (- k)) else digits_of (nat k))"

text \<open>The origin of an invoice line is a reference: the token \<^verbatim>\<open>entity,id\<close> of the
  name of a model and the id of one of its records.\<close>

definition reference_token :: "string \<Rightarrow> int \<Rightarrow> string" where
  "reference_token model k = model @ CHR '','' # decimal_of k"




subsection \<open>Traces and stores of the settlement workflow\<close>

text \<open>The calls of the sale's workflow that advance it.\<close>

fun is_lifecycle :: "event \<Rightarrow> bool" where
  "is_lifecycle (Quote sid) = True"
| "is_lifecycle (Confirm sid) = True"
| "is_lifecycle (Process sid) = True"
| "is_lifecycle ev = False"

text \<open>The trace of \<open>w'\<close> is the trace of \<open>w\<close> and, after it, events that satisfy \<open>P\<close>.\<close>

definition extends :: "(event \<Rightarrow> bool) \<Rightarrow> world \<Rightarrow> world \<Rightarrow> bool" where
  "extends P w w' = (\<exists>evs. snd w' = snd w @ evs \<and> list_all P evs)"

text \<open>A property of the store that the three workflow steps \<^verbatim>\<open>quote\<close>,
  \<^verbatim>\<open>confirm\<close> and \<^verbatim>\<open>process\<close> keep.\<close>

definition lifecycle_keeps :: "collab \<Rightarrow> (db \<Rightarrow> bool) \<Rightarrow> bool" where
  "lifecycle_keeps env Q =
     (\<forall>d sid d'. Q d \<longrightarrow>
        (quote env d sid = Inr d' \<or> confirm env d sid = Inr d' \<or> process env d sid = Inr d') \<longrightarrow> Q d')"








text \<open>A run of the settlement workflow, in the trace.\<close>

fun is_settlement :: "event \<Rightarrow> bool" where
  "is_settlement (WorkflowToEnd sales) = True"
| "is_settlement ev = False"

text \<open>How often the trace runs it.\<close>

definition settlements :: "event list \<Rightarrow> nat" where
  "settlements tr = length (filter is_settlement tr)"

subsection \<open>The candidate lines of a sale, in the words of the specification\<close>

text \<open>A line that is not reconciled yet.\<close>

definition unreconciled :: "db \<Rightarrow> ident \<Rightarrow> bool" where
  "unreconciled d l = (reconciliation (ledger d l) = None)"

text \<open>The signed amount \<^verbatim>\<open>sum(debit - credit)\<close> over lines.\<close>

definition signed_amount :: "db \<Rightarrow> ident list \<Rightarrow> decimal" where
  "signed_amount d ls = sum_list (map (\<lambda>l. debit (ledger d l) - credit (ledger d l)) ls)"

text \<open>The lines of the moves of the sale's payments.\<close>

definition move_lines :: "sale \<Rightarrow> ident list" where
  "move_lines s = concat (map (\<lambda>p. case move p of None \<Rightarrow> [] | Some ls \<Rightarrow> ls) (payments s))"

text \<open>The unreconciled \<^verbatim>\<open>lines_to_pay\<close> of the sale's invoices, then the unreconciled
  lines of the payments' moves on the account \<open>a\<close>.\<close>

definition candidate_lines :: "db \<Rightarrow> sale \<Rightarrow> ident \<Rightarrow> ident list" where
  "candidate_lines d s a =
     filter (unreconciled d) (concat (map (\<lambda>i. lines_to_pay (invoice_tab d i)) (invoices s))) @
     filter (\<lambda>l. unreconciled d l \<and> account (ledger d l) = a) (move_lines s)"

section \<open>Sample records\<close>

text \<open>Sample records for the concrete instances below.\<close>

definition sample_payment :: "ident \<Rightarrow> decimal \<Rightarrow> payment" where
  "sample_payment i a =
     \<lparr>payment_id = i, amount = a, payment_party = Some 1, payment_invoice = None,
      payment_account = Some 1, payment_statement = Some 1, payment_date = Some 0,
      payment_description = None, payment_sale = None, move = None\<rparr>"

definition sample_sale :: "ident \<Rightarrow> string \<Rightarrow> decimal option \<Rightarrow> payment list \<Rightarrow> ident list \<Rightarrow> sale" where
  "sample_sale i st tot ps invs =
     \<lparr>sale_id = i, state = st, total_amount = tot, invoice_method = ''order'',
      reference = Some ''S'', number = Some ''1'', description = None, party = 1,
      sale_device = None, currency_digits = 2, payments = ps, invoices = invs\<rparr>"


text \<open>Sample collaborators: each workflow step sets its state, \<^verbatim>\<open>process\<close> invoices
  an order-invoiced sale that has no invoice yet, \<^verbatim>\<open>post\<close> posts, a sale is done
  when it has invoices and all are posted, and \<^verbatim>\<open>reconcile\<close> marks the lines.\<close>

definition set_state :: "string \<Rightarrow> db \<Rightarrow> ident \<Rightarrow> error + db" where
  "set_state st d sid = Inr (d\<lparr>sale_tab := (sale_tab d)(sid := (sale_tab d sid)\<lparr>state := st\<rparr>)\<rparr>)"

definition sample_process :: "db \<Rightarrow> ident \<Rightarrow> error + db" where
  "sample_process d sid =
     Inr (d\<lparr>sale_tab := (sale_tab d)
            (sid := (sale_tab d sid)
               \<lparr>state := ''processing'',
                invoices := (if invoice_method (sale_tab d sid) = ''order'' \<and> invoices (sale_tab d sid) = []
                             then [100 + sid] else invoices (sale_tab d sid))\<rparr>)\<rparr>)"

definition sample_post :: "db \<Rightarrow> ident list \<Rightarrow> error + db" where
  "sample_post d ids =
     Inr (d\<lparr>invoice_tab := (\<lambda>i. if i \<in> set ids then (invoice_tab d i)\<lparr>invoice_state := ''posted''\<rparr>
                                else invoice_tab d i)\<rparr>)"

definition sample_is_done :: "db \<Rightarrow> ident \<Rightarrow> bool" where
  "sample_is_done d sid =
     (invoices (sale_tab d sid) \<noteq> [] \<and>
      list_all (\<lambda>i. invoice_state (invoice_tab d i) = ''posted'') (invoices (sale_tab d sid)))"

definition sample_do :: "db \<Rightarrow> ident list \<Rightarrow> error + db" where
  "sample_do d ids =
     Inr (d\<lparr>sale_tab := (\<lambda>i. if i \<in> set ids then (sale_tab d i)\<lparr>state := ''done''\<rparr> else sale_tab d i)\<rparr>)"

definition sample_set_number :: "db \<Rightarrow> ident \<Rightarrow> error + db" where
  "sample_set_number d sid =
     Inr (d\<lparr>sale_tab := (sale_tab d)(sid := (sale_tab d sid)\<lparr>number := Some ''7''\<rparr>)\<rparr>)"

definition sample_reconcile :: "db \<Rightarrow> ident list \<Rightarrow> error + db" where
  "sample_reconcile d ls =
     Inr (d\<lparr>ledger := (\<lambda>l. if l \<in> set ls then (ledger d l)\<lparr>reconciliation := Some 1\<rparr> else ledger d l)\<rparr>)"

definition sample_env :: collab where
  "sample_env =
     \<lparr>quote = set_state ''quotation'', confirm = set_state ''confirmed'', process = sample_process,
      post = sample_post, is_done = sample_is_done, do_sales = sample_do, today = 42,
      set_number = sample_set_number, new_line_id = (\<lambda>d. 1000), reconcile = sample_reconcile\<rparr>"

definition sample_invoice :: "string \<Rightarrow> ident \<Rightarrow> ident list \<Rightarrow> invoice" where
  "sample_invoice st pty ls =
     \<lparr>invoice_state = st, invoice_date = None, accounting_date = None, invoice_description = None,
      invoice_party = pty, lines_to_pay = ls\<rparr>"

definition sample_line :: "decimal \<Rightarrow> decimal \<Rightarrow> ident \<Rightarrow> move_line" where
  "sample_line dr cr a = \<lparr>debit = dr, credit = cr, account = a, reconciliation = None\<rparr>"

text \<open>
  A sample store. Sale 1 is a draft of party 1, paid in full (100) and not invoiced;
  sale 2 is processing, of party 2, with the posted invoice 12; sale 3 is processing,
  of party 1, with the posted invoice 11 (receivable line 31, debit 100) and a
  payment of 100 whose move has the lines 32 (credit 100 on the receivable account 5)
  and 33 (debit 100 on account 9). Party 3 has no receivable account; sale 4 is its
  sale, with a payment whose move has line 32. Sale 5 is a draft of party 1 with a
  total of 100 and no payment.
\<close>

definition sample_db :: db where
  "sample_db =
     \<lparr>sale_tab = (\<lambda>i.
          if i = 1 then sample_sale 1 ''draft'' (Some 100) [sample_payment 1 100] []
          else if i = 2 then (sample_sale 2 ''processing'' (Some 50) [] [12])\<lparr>party := 2\<rparr>
          else if i = 3 then sample_sale 3 ''processing'' (Some 100) [(sample_payment 3 100)\<lparr>move := Some [32, 33]\<rparr>] [11]
          else if i = 5 then sample_sale 5 ''draft'' (Some 100) [] []
          else (sample_sale i ''processing'' (Some 100) [(sample_payment 4 100)\<lparr>move := Some [32]\<rparr>] [])
                 \<lparr>party := 3, invoice_method := ''manual''\<rparr>),
      invoice_tab = (\<lambda>i.
          if i = 11 then sample_invoice ''posted'' 1 [31]
          else if i = 12 then sample_invoice ''posted'' 2 []
          else sample_invoice ''draft'' 1 []),
      party_tab = (\<lambda>i.
          if i = 3 then \<lparr>party_name = ''C'', account_receivable = None, sale_invoice_grouping_method = None\<rparr>
          else \<lparr>party_name = ''A'', account_receivable = Some 5, sale_invoice_grouping_method = None\<rparr>),
      ledger = (\<lambda>l.
          if l = 31 then sample_line 100 0 5
          else if l = 32 then sample_line 0 100 5
          else sample_line 100 0 9),
      statement_tab =
        [\<lparr>statement_id = 1, statement_journal = 1, statement_state = ''draft'', statement_date = 10\<rparr>]\<rparr>"




section \<open>Verification: payment aggregator\<close>

lemma zero_amounts_eq: "zero_amounts ss m k = (if k \<in> sale_id ` set ss then Some 0 else m k)"
  by (induction ss arbitrary: m) auto

lemma zero_fields_eq: "zero_fields ns sales r n = (if n \<in> set ns then Some (zero_amounts sales Map.empty) else r n)"
  by (induction ns arbitrary: r) auto

lemma paid_payments_eq:
  "result name = Some m \<Longrightarrow> m sid = Some v \<Longrightarrow>
   paid_payments ps name sid result = Inr (result(name \<mapsto> m(sid \<mapsto> v + sum_list (map amount ps))))"
proof (induction ps arbitrary: result m v)
  case Nil
  then show ?case by (simp add: fun_upd_idem)
next
  case (Cons p ps)
  let ?m1 = "m(sid \<mapsto> v + amount p)"
  let ?r1 = "result(name \<mapsto> ?m1)"
  have step: "add_amount result name sid (amount p) = Inr ?r1"
    using Cons.prems by (simp add: add_amount_def)
  have a: "?r1 name = Some ?m1" by simp
  have b: "?m1 sid = Some (v + amount p)" by simp
  have c: "paid_payments ps name sid ?r1 = Inr (?r1(name \<mapsto> ?m1(sid \<mapsto> (v + amount p) + sum_list (map amount ps))))"
    by (rule Cons.IH [of ?r1 ?m1 "v + amount p", OF a b])
  have d: "paid_payments (p # ps) name sid result = paid_payments ps name sid ?r1"
    by (simp add: step)
  have e: "?r1(name \<mapsto> ?m1(sid \<mapsto> (v + amount p) + sum_list (map amount ps))) = result(name \<mapsto> m(sid \<mapsto> v + sum_list (map amount (p # ps))))"
    by (simp add: add.assoc)
  show ?case unfolding d c e ..
qed

lemma paid_total_Cons:
  "paid_total (s # ss) k = (if sale_id s = k then sum_list (map amount (payments s)) else 0) + paid_total ss k"
  by (simp add: paid_total_def)

lemma paid_sales_eq:
  "result name = Some m \<Longrightarrow> sale_id ` set ss \<subseteq> dom m \<Longrightarrow>
   paid_sales ss name result = Inr (result(name \<mapsto> (\<lambda>k. map_option (\<lambda>v. v + paid_total ss k) (m k))))"
proof (induction ss arbitrary: result m)
  case Nil
  have "(\<lambda>k. map_option (\<lambda>v. v + paid_total [] k) (m k)) = m"
    by (rule ext) (simp add: paid_total_def option.map_ident)
  with Nil show ?case by (simp add: fun_upd_idem)
next
  case (Cons s ss)
  from Cons.prems obtain v where v: "m (sale_id s) = Some v" by auto
  let ?m1 = "m(sale_id s \<mapsto> v + sum_list (map amount (payments s)))"
  let ?r1 = "result(name \<mapsto> ?m1)"
  have step: "paid_payments (payments s) name (sale_id s) result = Inr ?r1"
    using Cons.prems(1) v by (rule paid_payments_eq)
  have sub: "sale_id ` set ss \<subseteq> dom ?m1" using Cons.prems(2) by auto
  have a: "?r1 name = Some ?m1" by simp
  have c: "paid_sales ss name ?r1 = Inr (?r1(name \<mapsto> (\<lambda>k. map_option (\<lambda>v. v + paid_total ss k) (?m1 k))))"
    by (rule Cons.IH [of ?r1 ?m1, OF a sub])
  have e: "(\<lambda>k. map_option (\<lambda>v. v + paid_total ss k) (?m1 k))
      = (\<lambda>k. map_option (\<lambda>v. v + paid_total (s # ss) k) (m k))"
    by (rule ext) (auto simp: paid_total_Cons v add.assoc)
  have d: "paid_sales (s # ss) name result = paid_sales ss name ?r1"
    by (simp add: step)
  have f: "?r1(name \<mapsto> (\<lambda>k. map_option (\<lambda>v. v + paid_total (s # ss) k) (m k))) =
     result(name \<mapsto> (\<lambda>k. map_option (\<lambda>v. v + paid_total (s # ss) k) (m k)))"
    by simp
  show ?case unfolding d c e f ..
qed

lemma paid_names_eq:
  "distinct ns \<Longrightarrow> \<forall>n\<in>set ns. \<exists>m. result n = Some m \<and> sale_id ` set sales \<subseteq> dom m \<Longrightarrow>
   paid_names ns sales result =
     Inr (\<lambda>n. if n \<in> set ns
               then map_option (\<lambda>m k. map_option (\<lambda>v. v + paid_total sales k) (m k)) (result n)
               else result n)"
proof (induction ns arbitrary: result)
  case Nil
  then show ?case by simp
next
  case (Cons n ns)
  from Cons.prems obtain m where m: "result n = Some m" "sale_id ` set sales \<subseteq> dom m" by auto
  let ?r1 = "result(n \<mapsto> (\<lambda>k. map_option (\<lambda>v. v + paid_total sales k) (m k)))"
  have step: "paid_sales sales n result = Inr ?r1"
    using m by (rule paid_sales_eq)
  have "\<forall>n'\<in>set ns. \<exists>m. ?r1 n' = Some m \<and> sale_id ` set sales \<subseteq> dom m"
    using Cons.prems by auto
  with Cons.prems have "paid_names ns sales ?r1 =
     Inr (\<lambda>n'. if n' \<in> set ns
               then map_option (\<lambda>m k. map_option (\<lambda>v. v + paid_total sales k) (m k)) (?r1 n')
               else ?r1 n')"
    by (intro Cons.IH) simp_all
  moreover have "(\<lambda>n'. if n' \<in> set ns
               then map_option (\<lambda>m k. map_option (\<lambda>v. v + paid_total sales k) (m k)) (?r1 n')
               else ?r1 n') = (\<lambda>n'. if n' \<in> set (n # ns)
               then map_option (\<lambda>m k. map_option (\<lambda>v. v + paid_total sales k) (m k)) (result n')
               else result n')"
    using Cons.prems(1) m by (intro ext) auto
  ultimately show ?case using step by simp
qed

lemma get_paid_amount_eq:
  assumes "distinct names"
  shows "get_paid_amount sales names =
     Inr (\<lambda>n. if n \<in> set names
               then Some (\<lambda>k. if k \<in> sale_id ` set sales then Some (paid_total sales k) else None)
               else None)"
proof -
  let ?z = "zero_fields names sales Map.empty"
  have "\<forall>n\<in>set names. \<exists>m. ?z n = Some m \<and> sale_id ` set sales \<subseteq> dom m"
    by (auto simp: zero_fields_eq zero_amounts_eq dom_def)
  with assms have "paid_names names sales ?z =
     Inr (\<lambda>n. if n \<in> set names
               then map_option (\<lambda>m k. map_option (\<lambda>v. v + paid_total sales k) (m k)) (?z n)
               else ?z n)"
    by (rule paid_names_eq)
  moreover have "(\<lambda>n. if n \<in> set names
               then map_option (\<lambda>m k. map_option (\<lambda>v. v + paid_total sales k) (m k)) (?z n)
               else ?z n) = (\<lambda>n. if n \<in> set names
               then Some (\<lambda>k. if k \<in> sale_id ` set sales then Some (paid_total sales k) else None)
               else None)"
    by (intro ext) (auto simp: zero_fields_eq zero_amounts_eq fun_eq_iff)
  ultimately show ?thesis by (simp add: get_paid_amount_def)
qed

lemma paid_total_distinct:
  "distinct (map sale_id ss) \<Longrightarrow> s \<in> set ss \<Longrightarrow> paid_total ss (sale_id s) = sum_list (map amount (payments s))"
proof (induction ss)
  case Nil
  then show ?case by simp
next
  case (Cons a ss)
  show ?case
  proof (cases "s = a")
    case True
    have "\<forall>x\<in>set ss. sale_id x \<noteq> sale_id a"
      using Cons.prems(1) by (fastforce simp: image_iff)
    then have "filter (\<lambda>x. sale_id x = sale_id a) ss = []"
      by (simp add: filter_empty_conv)
    then have "paid_total ss (sale_id a) = 0" by (simp add: paid_total_def)
    with True show ?thesis by (simp add: paid_total_Cons)
  next
    case False
    with Cons.prems have "s \<in> set ss" "sale_id a \<noteq> sale_id s" by auto
    with Cons show ?thesis by (simp add: paid_total_Cons)
  qed
qed

lemma paid_amount_eq: "paid_amount s = Inr (sum_list (map amount (payments s)))"
  by (simp add: paid_amount_def get_paid_amount_eq paid_total_def)

text \<open>
  Claim C7, as stated, fails on a batch that lists a sale twice, and on a list of
  names that lists a name twice: the dict of the result has one entry for the name
  and the id, and the loops add the payments once per entry of each list. The sale
  below has one payment of 10 and is mapped to 20 both times.
\<close>

theorem get_paid_amount_repeated_sale_counterexample:
  "lookup_amount (get_paid_amount
       [sample_sale 1 ''confirmed'' (Some 100) [sample_payment 1 10] [],
        sample_sale 1 ''confirmed'' (Some 100) [sample_payment 1 10] []] [''paid_amount''])
     ''paid_amount'' 1 = Some 20 \<and>
   lookup_amount (get_paid_amount
       [sample_sale 1 ''confirmed'' (Some 100) [sample_payment 1 10] []] [''paid_amount'', ''paid_amount''])
     ''paid_amount'' 1 = Some 20 \<and>
   sum_list (map amount (payments (sample_sale 1 ''confirmed'' (Some 100) [sample_payment 1 10] []))) = 10"
  by (simp add: lookup_amount_def get_paid_amount_def add_amount_def sample_sale_def sample_payment_def)

text \<open>
  Claim C7, amended: for a batch that lists every sale once (pairwise distinct ids)
  and every field name once, \<^verbatim>\<open>get_paid_amount\<close> returns normally, its result has
  an entry for every requested name and, under it, for every requested sale, and the
  entry of a sale is the sum of the amounts of its payments, which is 0 when it has
  none. The getter takes the records and returns the dict: it has no state to write.
\<close>

theorem get_paid_amount_sums_payments:
  assumes "distinct names" and "distinct (map sale_id sales)"
  shows "\<exists>r. get_paid_amount sales names = Inr r \<and> dom r = set names \<and>
     (\<forall>n\<in>set names. \<exists>m. r n = Some m \<and> dom m = sale_id ` set sales \<and>
        (\<forall>s\<in>set sales. m (sale_id s) = Some (sum_list (map amount (payments s))) \<and>
            (payments s = [] \<longrightarrow> m (sale_id s) = Some 0)))"
  using assms
  by (auto simp: get_paid_amount_eq paid_total_distinct dom_def split: if_splits)

theorem get_paid_amount_sums_payments_witness:
  "distinct [''paid_amount''] \<and>
   distinct (map sale_id [sample_sale 1 ''draft'' None [sample_payment 1 40, sample_payment 2 30] [],
                          sample_sale 2 ''draft'' None [] []]) \<and>
   lookup_amount (get_paid_amount [sample_sale 1 ''draft'' None [sample_payment 1 40, sample_payment 2 30] [],
                          sample_sale 2 ''draft'' None [] []] [''paid_amount'']) ''paid_amount'' 1 = Some 70 \<and>
   lookup_amount (get_paid_amount [sample_sale 1 ''draft'' None [sample_payment 1 40, sample_payment 2 30] [],
                          sample_sale 2 ''draft'' None [] []] [''paid_amount'']) ''paid_amount'' 2 = Some 0"
proof -
  let ?ss = "[sample_sale 1 ''draft'' None [sample_payment 1 40, sample_payment 2 30] [],
                          sample_sale 2 ''draft'' None [] []]"
  have h1: "distinct [''paid_amount'']" by simp
  have h2: "distinct (map sale_id ?ss)" by (simp add: sample_sale_def)
  from get_paid_amount_sums_payments [OF h1 h2] obtain r m where r: "get_paid_amount ?ss [''paid_amount''] = Inr r"
     "r ''paid_amount'' = Some m" 
     "\<forall>s\<in>set ?ss. m (sale_id s) = Some (sum_list (map amount (payments s)))"
    by auto
  from r(3) have "m 1 = Some 70" "m 2 = Some 0" by (simp_all add: sample_sale_def sample_payment_def)
  with r(1,2) h1 h2 show ?thesis by (simp add: lookup_amount_def)
qed

lemma residual_of_eq:
  "total_amount s = Some t \<Longrightarrow> residual_of s = Inr (t - sum_list (map amount (payments s)))"
  by (simp add: residual_of_def paid_amount_eq)

lemma residual_sales_eq:
  assumes "\<forall>s\<in>set ss. total_amount s \<noteq> None" and "inj_on sale_id (set ss)"
  shows "\<exists>m'. residual_sales ss m = Inr m' \<and>
           (\<forall>s\<in>set ss. \<forall>t. total_amount s = Some t \<longrightarrow>
                m' (sale_id s) = Some (t - sum_list (map amount (payments s)))) \<and>
           (\<forall>k. k \<notin> sale_id ` set ss \<longrightarrow> m' k = m k)"
  using assms
proof (induction ss arbitrary: m)
  case Nil
  then show ?case by simp
next
  case (Cons s ss)
  from Cons.prems(1) obtain t where t: "total_amount s = Some t" by auto
  let ?v = "t - sum_list (map amount (payments s))"
  have step: "residual_of s = Inr ?v" using t by (rule residual_of_eq)
  have inj: "inj_on sale_id (set ss)" using Cons.prems(2) by (simp add: inj_on_def)
  have tot: "\<forall>s\<in>set ss. total_amount s \<noteq> None" using Cons.prems(1) by simp
  from Cons.IH [OF tot inj, of "m(sale_id s \<mapsto> ?v)"]
  obtain m' where m': "residual_sales ss (m(sale_id s \<mapsto> ?v)) = Inr m'"
      "\<forall>s'\<in>set ss. \<forall>t. total_amount s' = Some t \<longrightarrow>
                m' (sale_id s') = Some (t - sum_list (map amount (payments s')))"
      "\<forall>k. k \<notin> sale_id ` set ss \<longrightarrow> m' k = (m(sale_id s \<mapsto> ?v)) k"
    by blast
  have run: "residual_sales (s # ss) m = Inr m'" by (simp add: step m'(1))
  have here: "m' (sale_id s) = Some ?v"
  proof (cases "sale_id s \<in> sale_id ` set ss")
    case True
    then obtain s' where s': "s' \<in> set ss" "sale_id s' = sale_id s" by auto
    with Cons.prems(2) have "s' = s" by (auto simp: inj_on_def)
    with s' m'(2) t show ?thesis by auto
  next
    case False
    with m'(3) show ?thesis by simp
  qed
  have others: "\<forall>k. k \<notin> sale_id ` set (s # ss) \<longrightarrow> m' k = m k"
    using m'(3) by auto
  from run here others m'(2) t show ?case by auto
qed

lemma residual_sales_dom:
  "residual_sales ss m = Inr m' \<Longrightarrow> dom m' = dom m \<union> sale_id ` set ss"
proof (induction ss arbitrary: m)
  case Nil
  then show ?case by simp
next
  case (Cons s ss)
  then show ?case by (auto split: sum.splits)
qed

lemma residual_names_eq:
  "residual_sales sales Map.empty = Inr m \<Longrightarrow>
   residual_names ns sales r = Inr (\<lambda>n. if n \<in> set ns then Some m else r n)"
proof (induction ns arbitrary: r)
  case Nil
  then show ?case by simp
next
  case (Cons n ns)
  have "residual_names (n # ns) sales r = residual_names ns sales (r(n \<mapsto> m))"
    using Cons.prems by simp
  also have "\<dots> = Inr (\<lambda>n'. if n' \<in> set ns then Some m else (r(n \<mapsto> m)) n')"
    by (rule Cons.IH [OF Cons.prems])
  also have "(\<lambda>n'. if n' \<in> set ns then Some m else (r(n \<mapsto> m)) n') = (\<lambda>n'. if n' \<in> set (n # ns) then Some m else r n')"
    by (rule ext) simp
  finally show ?case .
qed

text \<open>
  Claim C8: for a batch of sales that all have a total amount (an id standing for one
  record), \<^verbatim>\<open>get_residual_amount\<close> returns normally and maps every sale, under
  every requested name, to its total amount minus its paid amount. Nothing is stated
  for a sale without a total amount.
\<close>

theorem get_residual_amount_total_minus_paid:
  assumes "\<forall>s\<in>set sales. total_amount s \<noteq> None" and "inj_on sale_id (set sales)"
  shows "\<exists>r. get_residual_amount sales names = Inr r \<and> dom r = set names \<and>
     (\<forall>n\<in>set names. \<exists>m. r n = Some m \<and> dom m = sale_id ` set sales \<and>
        (\<forall>s\<in>set sales. \<exists>t p. total_amount s = Some t \<and> paid_amount s = Inr p \<and>
            m (sale_id s) = Some (t - p)))"
proof -
  from residual_sales_eq [OF assms, of Map.empty]
  obtain m where m: "residual_sales sales Map.empty = Inr m"
      "\<forall>s\<in>set sales. \<forall>t. total_amount s = Some t \<longrightarrow>
                m (sale_id s) = Some (t - sum_list (map amount (payments s)))"
    by blast
  have d: "dom m = sale_id ` set sales" using residual_sales_dom [OF m(1)] by simp
  have r: "get_residual_amount sales names = Inr (\<lambda>n. if n \<in> set names then Some m else None)"
    unfolding get_residual_amount_def by (rule residual_names_eq [OF m(1)])
  have each: "\<forall>s\<in>set sales. \<exists>t p. total_amount s = Some t \<and> paid_amount s = Inr p \<and>
            m (sale_id s) = Some (t - p)"
    using assms(1) m(2) by (auto simp: paid_amount_eq)
  show ?thesis unfolding r using d each by (auto simp: dom_def)
qed

theorem get_residual_amount_total_minus_paid_witness:
  "total_amount (sample_sale 1 ''confirmed'' (Some 100) [sample_payment 1 40, sample_payment 2 30] []) \<noteq> None \<and>
   total_amount (sample_sale 2 ''confirmed'' (Some 50) [] []) \<noteq> None \<and>
   sale_id (sample_sale 1 ''confirmed'' (Some 100) [sample_payment 1 40, sample_payment 2 30] []) \<noteq>
     sale_id (sample_sale 2 ''confirmed'' (Some 50) [] []) \<and>
   lookup_amount (get_residual_amount
       [sample_sale 1 ''confirmed'' (Some 100) [sample_payment 1 40, sample_payment 2 30] [],
        sample_sale 2 ''confirmed'' (Some 50) [] []] [''residual_amount''])
     ''residual_amount'' 1 = Some 30 \<and>
   lookup_amount (get_residual_amount
       [sample_sale 1 ''confirmed'' (Some 100) [sample_payment 1 40, sample_payment 2 30] [],
        sample_sale 2 ''confirmed'' (Some 50) [] []] [''residual_amount''])
     ''residual_amount'' 2 = Some 50"
proof -
  let ?s1 = "sample_sale 1 ''confirmed'' (Some 100) [sample_payment 1 40, sample_payment 2 30] []"
  let ?s2 = "sample_sale 2 ''confirmed'' (Some 50) [] []"
  have h1: "\<forall>s\<in>set [?s1, ?s2]. total_amount s \<noteq> None" by (simp add: sample_sale_def)
  have ne: "sale_id ?s1 \<noteq> sale_id ?s2" by (simp add: sample_sale_def)
  then have h2: "inj_on sale_id (set [?s1, ?s2])" by (auto simp: inj_on_def)
  from get_residual_amount_total_minus_paid [OF h1 h2, of "[''residual_amount'']"]
  obtain r m where r: "get_residual_amount [?s1, ?s2] [''residual_amount''] = Inr r"
      "r ''residual_amount'' = Some m"
      "\<forall>s\<in>set [?s1, ?s2]. \<exists>t p. total_amount s = Some t \<and> paid_amount s = Inr p \<and>
            m (sale_id s) = Some (t - p)"
    by auto
  from r(3) have "m 1 = Some 30" "m 2 = Some 50"
    by (simp_all add: paid_amount_eq sample_sale_def sample_payment_def)
  with r(1,2) h1 ne show ?thesis by (simp add: lookup_amount_def)
qed

section \<open>Verification: residual query engine\<close>











lemma position_first: "c \<notin> set m \<Longrightarrow> position c (m @ c # r) = Suc (length m)"
  by (induction m) auto

lemma substring_after: "c \<notin> set m \<Longrightarrow> substring (m @ c # r) (Suc (position c (m @ c # r))) = r"
  by (simp add: position_first substring_def)

lemma digit_cases: "d < 10 \<Longrightarrow> d = 0 \<or> d = 1 \<or> d = 2 \<or> d = 3 \<or> d = 4 \<or> d = 5 \<or> d = 6 \<or> d = 7 \<or> d = 8 \<or> d = (9::nat)"
  by arith

lemma digit_char:
  assumes "d < 10"
  shows "digit_of (''0123456789'' ! d) = Some d" and "\<not> is_space (''0123456789'' ! d)"
    and "''0123456789'' ! d \<noteq> CHR ''-''" and "''0123456789'' ! d \<noteq> CHR ''+''"
  using digit_cases [OF assms] by (auto simp: digit_of_def is_space_def)

lemma digits_value_append:
  "digits_value (xs @ ys) a = (case digits_value xs a of None \<Rightarrow> None | Some b \<Rightarrow> digits_value ys b)"
  by (induction xs arbitrary: a) (auto split: option.splits)

lemma digits_of_value: "digits_value (digits_of n) 0 = Some n"
proof (induction n rule: digits_of.induct)
  case (1 n)
  show ?case
  proof (cases "n < 10")
    case True
    then show ?thesis by (subst digits_of.simps) (simp add: digit_char)
  next
    case False
    then have "digits_value (digits_of (n div 10)) 0 = Some (n div 10)" by (rule "1.IH")
    moreover have "n mod 10 < 10" by simp
    ultimately show ?thesis
      using False by (subst digits_of.simps) (simp add: digits_value_append digit_char)
  qed
qed

lemma digits_of_chars: "c \<in> set (digits_of n) \<Longrightarrow> \<exists>d<10. c = ''0123456789'' ! d"
proof (induction n rule: digits_of.induct)
  case (1 n)
  show ?case
  proof (cases "n < 10")
    case True
    with "1.prems" show ?thesis by (subst (asm) digits_of.simps) auto
  next
    case False
    from "1.prems" False have "c \<in> set (digits_of (n div 10)) \<or> c = ''0123456789'' ! (n mod 10)"
      by (subst (asm) digits_of.simps) auto
    then show ?thesis
    proof
      assume "c \<in> set (digits_of (n div 10))"
      with False show ?thesis using "1.IH" by blast
    next
      assume "c = ''0123456789'' ! (n mod 10)"
      moreover have "n mod 10 < 10" by simp
      ultimately show ?thesis by blast
    qed
  qed
qed

lemma digits_of_nonempty: "digits_of n \<noteq> []"
  by (subst digits_of.simps) simp

lemma trim_no_space: "\<forall>c\<in>set s. \<not> is_space c \<Longrightarrow> trim s = s"
proof -
  assume a: "\<forall>c\<in>set s. \<not> is_space c"
  have d: "dropWhile is_space xs = xs" if "\<forall>c\<in>set xs. \<not> is_space c" for xs
    using that by (cases xs) auto
  from a have "dropWhile is_space s = s" by (rule d)
  moreover from a have "dropWhile is_space (rev s) = rev s" by (intro d) simp
  ultimately show ?thesis by (simp add: trim_def)
qed

lemma cast_digits: "cast_integer (digits_of n) = int4 (int n)"
proof -
  have ns: "\<forall>c\<in>set (digits_of n). \<not> is_space c"
    using digits_of_chars digit_char(2) by blast
  obtain c cs where cs: "digits_of n = c # cs"
    using digits_of_nonempty [of n] by (cases "digits_of n") auto
  then have "c \<in> set (digits_of n)" by simp
  then obtain d where "d < 10" "c = ''0123456789'' ! d" using digits_of_chars by blast
  then have c: "c \<noteq> CHR ''-''" "c \<noteq> CHR ''+''" using digit_char(3,4) by auto
  have v: "digits_value (c # cs) 0 = Some n" using digits_of_value [of n] cs by simp
  have t: "trim (c # cs) = c # cs" using trim_no_space [OF ns] cs by simp
  show ?thesis
    unfolding cs cast_integer_def t using c by (simp only: v list.case if_False option.case)
qed

lemma cast_minus_digits: "cast_integer (CHR ''-'' # digits_of n) = int4 (- int n)"
proof -
  have "\<forall>c\<in>set (digits_of n). \<not> is_space c"
    using digits_of_chars digit_char(2) by blast
  then have ns: "\<forall>c\<in>set (CHR ''-'' # digits_of n). \<not> is_space c"
    by (simp add: is_space_def)
  show ?thesis
    unfolding cast_integer_def trim_no_space [OF ns]
    by (simp add: digits_of_nonempty digits_of_value)
qed

lemma cast_decimal: "cast_integer (decimal_of k) = int4 k"
  by (simp add: decimal_of_def cast_digits cast_minus_digits)


lemma cast_integer_trim: "trim s = trim s' \<Longrightarrow> cast_integer s = cast_integer s'"
  by (simp add: cast_integer_def)

lemma trim_padded:
  assumes a: "list_all is_space a" and b: "list_all is_space b"
    and s: "\<forall>c\<in>set s. \<not> is_space c"
  shows "trim (a @ s @ b) = s"
proof (cases s)
  case Nil
  have 0: "dropWhile is_space (a @ [] @ b) = []"
    unfolding dropWhile_eq_Nil_conv using a b by (auto simp: list_all_iff)
  show ?thesis unfolding Nil trim_def 0 by simp
next
  case (Cons c cs)
  have d: "dropWhile is_space xs = xs" if "\<forall>c\<in>set xs. \<not> is_space c" "xs \<noteq> []" for xs
    using that by (cases xs) auto
  have "dropWhile is_space (a @ s @ b) = dropWhile is_space (s @ b)"
    using a by (intro dropWhile_append2) (simp add: list_all_iff)
  also have "\<dots> = s @ b" using s Cons by simp
  finally have 1: "dropWhile is_space (a @ s @ b) = s @ b" .
  have "dropWhile is_space (rev b @ rev s) = dropWhile is_space (rev s)"
    using b by (intro dropWhile_append2) (simp add: list_all_iff)
  also have "\<dots> = rev s" using s Cons by (intro d) auto
  finally have 2: "dropWhile is_space (rev (s @ b)) = rev s" by simp
  show ?thesis unfolding trim_def 1 2 by simp
qed

lemma decimal_of_no_space: "\<forall>c\<in>set (decimal_of k). \<not> is_space c"
proof -
  have "\<forall>c\<in>set (digits_of n). \<not> is_space c" for n
    using digits_of_chars digit_char(2) by blast
  then show ?thesis by (simp add: decimal_of_def is_space_def)
qed

text \<open>The cast skips white space around the number.\<close>

lemma cast_padded:
  assumes "list_all is_space a" and "list_all is_space b"
  shows "cast_integer (a @ decimal_of k @ b) = int4 k"
proof -
  have "trim (a @ decimal_of k @ b) = trim (decimal_of k)"
    using trim_padded [OF assms decimal_of_no_space] trim_no_space [OF decimal_of_no_space] by simp
  then have "cast_integer (a @ decimal_of k @ b) = cast_integer (decimal_of k)"
    by (rule cast_integer_trim)
  then show ?thesis by (simp add: cast_decimal)
qed

lemma origin_id_padded:
  assumes "CHR '','' \<notin> set model" and "list_all is_space a" and "list_all is_space b"
  shows "origin_id (model @ CHR '','' # a @ decimal_of k @ b) = int4 k"
  using assms by (simp add: origin_id_def substring_after cast_padded)

text \<open>An id of eleven digits is out of the range of \<^verbatim>\<open>INTEGER\<close>: the cast raises. White
  space around the number is skipped. Text with no digit is no integer.\<close>

lemma origin_id_samples:
  "origin_id ''sale.line,99999999999'' = None"
  "origin_id ''sale.line,2147483648'' = None"
  "origin_id ''sale.line,2147483647'' = Some 2147483647"
  "origin_id ''sale.line,-2147483648'' = Some (- 2147483648)"
  "origin_id ''sale.line, 42 '' = Some 42"
  "origin_id ''sale.line,+42'' = Some 42"
  "origin_id ''sale.line,'' = None"
  "origin_id ''sale.line,4 2'' = None"
  "origin_id ''42'' = Some 42"
  by (simp_all add: origin_id_def substring_def cast_integer_def digit_of_def trim_def is_space_def int4_def)

lemma reference_token_samples:
  "reference_token ''sale.line'' 42 = ''sale.line,42''"
  "reference_token ''sale.line'' (- 1) = ''sale.line,-1''"
  by (simp_all add: reference_token_def decimal_of_def digits_of.simps)




lemma extends_refl: "extends P w w"
  by (simp add: extends_def)

lemma extends_trans: "extends P w w1 \<Longrightarrow> extends P w1 w2 \<Longrightarrow> extends P w w2"
  by (auto simp: extends_def)

section \<open>Verification: sale settlement workflow\<close>

lemma world_of_simps: "world_of (Inl (e, w)) = w" "world_of (Inr (x, w)) = w"
  by (simp_all add: world_of_def)

lemma sample_sales:
  "sale_tab sample_db 1 = sample_sale 1 ''draft'' (Some 100) [sample_payment 1 100] []"
  "sale_tab sample_db 2 = (sample_sale 2 ''processing'' (Some 50) [] [12])\<lparr>party := 2\<rparr>"
  "sale_tab sample_db 3 = sample_sale 3 ''processing'' (Some 100) [(sample_payment 3 100)\<lparr>move := Some [32, 33]\<rparr>] [11]"
  "sale_tab sample_db 4 = (sample_sale 4 ''processing'' (Some 100) [(sample_payment 4 100)\<lparr>move := Some [32]\<rparr>] [])
                 \<lparr>party := 3, invoice_method := ''manual''\<rparr>"
  "sale_tab sample_db 5 = sample_sale 5 ''draft'' (Some 100) [] []"
  by (simp_all add: sample_db_def)

lemma sample_invoices:
  "invoice_tab sample_db 11 = sample_invoice ''posted'' 1 [31]"
  "invoice_tab sample_db 12 = sample_invoice ''posted'' 2 []"
  "invoice_tab sample_db 101 = sample_invoice ''draft'' 1 []"
  "invoice_tab sample_db 105 = sample_invoice ''draft'' 1 []"
  by (simp_all add: sample_db_def)

lemma sample_parties:
  "party_tab sample_db 1 = \<lparr>party_name = ''A'', account_receivable = Some 5, sale_invoice_grouping_method = None\<rparr>"
  "party_tab sample_db 2 = \<lparr>party_name = ''A'', account_receivable = Some 5, sale_invoice_grouping_method = None\<rparr>"
  "party_tab sample_db 3 = \<lparr>party_name = ''C'', account_receivable = None, sale_invoice_grouping_method = None\<rparr>"
  by (simp_all add: sample_db_def)

lemma sample_ledger:
  "ledger sample_db 31 = sample_line 100 0 5"
  "ledger sample_db 32 = sample_line 0 100 5"
  "ledger sample_db 33 = sample_line 100 0 9"
  by (simp_all add: sample_db_def)

lemma sample_env_fields:
  "quote sample_env = set_state ''quotation''"
  "confirm sample_env = set_state ''confirmed''"
  "process sample_env = sample_process"
  "post sample_env = sample_post"
  "is_done sample_env = sample_is_done"
  "do_sales sample_env = sample_do"
  "today sample_env = 42"
  "set_number sample_env = sample_set_number"
  "new_line_id sample_env = (\<lambda>d. 1000)"
  "reconcile sample_env = sample_reconcile"
  by (simp_all add: sample_env_def)

lemmas sample_simps = sample_sales sample_invoices sample_parties sample_ledger sample_env_fields
  sample_sale_def sample_payment_def sample_invoice_def
  sample_line_def set_state_def sample_process_def sample_post_def sample_is_done_def sample_do_def
  sample_set_number_def sample_reconcile_def

lemmas run_defs = workflow_to_end_def advance_sale_def lifecycle_def call_def truthy_def
  post_invoices_def posted_invoices_def write_payments_def write_payment_def write_invoice_def
  world_of_simps Let_def

lemma call_log: "snd (world_of (call f ev w)) = snd w @ [ev]"
  by (simp add: call_def world_of_def split: sum.splits)

lemma call_Inr: "call f ev w = Inr (u, w') \<Longrightarrow> snd w' = snd w @ [ev]"
  by (auto simp: call_def split: sum.splits)

lemma call_Inl: "call f ev w = Inl (e, w') \<Longrightarrow> snd w' = snd w @ [ev] \<and> fst w' = fst w"
  by (auto simp: call_def split: sum.splits)

lemma call_extends: "P ev \<Longrightarrow> extends P w (world_of (call f ev w))"
  by (auto simp: extends_def call_def world_of_def split: sum.splits)

lemma bind_extends:
  assumes "extends P w (world_of r)"
    and "\<And>u w1. r = Inr (u, w1) \<Longrightarrow> extends P w1 (world_of (g u w1))"
  shows "extends P w (world_of (case r of Inl e \<Rightarrow> Inl e | Inr (u, w1) \<Rightarrow> g u w1))"
proof (cases r)
  case (Inl ew)
  with assms(1) show ?thesis by (simp add: world_of_def)
next
  case (Inr uw)
  obtain u w1 where uw: "uw = (u, w1)" by (cases uw)
  from assms(1) Inr uw have "extends P w w1" by (simp add: world_of_def)
  moreover from assms(2) Inr uw have "extends P w1 (world_of (g u w1))" by simp
  ultimately have "extends P w (world_of (g u w1))" by (rule extends_trans)
  with Inr uw show ?thesis by simp
qed

lemma call_if_extends:
  "P ev \<Longrightarrow> extends P w (world_of (if b then call f ev w else Inr ((), w)))"
  by (simp add: call_extends) (simp add: world_of_def extends_refl)

lemma lifecycle_extends: "extends is_lifecycle w (world_of (lifecycle env sid w))"
  unfolding lifecycle_def
  by (intro bind_extends call_if_extends) simp_all

lemma advance_sale_extends: "extends is_lifecycle w (world_of (advance_sale env sid f w))"
  unfolding advance_sale_def
  by (intro bind_extends lifecycle_extends) (simp add: Let_def world_of_def extends_refl)

lemma advance_sales_extends: "extends is_lifecycle w (world_of (advance_sales env sales f w))"
proof (induction sales arbitrary: f w)
  case Nil
  then show ?case by (simp add: world_of_def extends_refl)
next
  case (Cons sid rest)
  show ?case
  proof (cases "advance_sale env sid f w")
    case (Inl ew)
    with advance_sale_extends [of w env sid f] show ?thesis by simp
  next
    case (Inr fw)
    obtain f1 w1 where fw: "fw = (f1, w1)" by (cases fw)
    from advance_sale_extends [of w env sid f] Inr fw have "extends is_lifecycle w w1"
      by (simp add: world_of_def)
    moreover have "extends is_lifecycle w1 (world_of (advance_sales env rest f1 w1))" by (rule Cons.IH)
    ultimately show ?thesis using Inr fw by (simp add: extends_trans)
  qed
qed

lemma call_keeps:
  "(\<And>d'. f (fst w) = Inr d' \<Longrightarrow> Q d') \<Longrightarrow> Q (fst w) \<Longrightarrow> Q (fst (world_of (call f ev w)))"
  by (simp add: call_def world_of_def split: sum.splits)

lemma bind_keeps:
  assumes "Q (fst w) \<Longrightarrow> Q (fst (world_of r))"
    and "\<And>u w1. r = Inr (u, w1) \<Longrightarrow> Q (fst w1) \<Longrightarrow> Q (fst (world_of (g u w1)))"
    and "Q (fst w)"
  shows "Q (fst (world_of (case r of Inl e \<Rightarrow> Inl e | Inr (u, w1) \<Rightarrow> g u w1)))"
proof (cases r)
  case (Inl ew)
  with assms(1,3) show ?thesis by (simp add: world_of_def)
next
  case (Inr uw)
  obtain u w1 where uw: "uw = (u, w1)" by (cases uw)
  from assms(1,3) Inr uw have "Q (fst w1)" by (simp add: world_of_def)
  with assms(2) Inr uw show ?thesis by simp
qed

lemma call_if_keeps:
  "(\<And>d'. f (fst w) = Inr d' \<Longrightarrow> Q d') \<Longrightarrow> Q (fst w) \<Longrightarrow>
   Q (fst (world_of (if b then call f ev w else Inr ((), w))))"
  by (cases b) (simp_all add: call_keeps world_of_simps)

lemma lifecycle_keeps_store:
  assumes "lifecycle_keeps env Q" and "Q (fst w)"
  shows "Q (fst (world_of (lifecycle env sid w)))"
proof -
  from assms(1) have kq: "\<And>d d'. Q d \<Longrightarrow> quote env d sid = Inr d' \<Longrightarrow> Q d'"
    unfolding lifecycle_keeps_def by blast
  from assms(1) have kc: "\<And>d d'. Q d \<Longrightarrow> confirm env d sid = Inr d' \<Longrightarrow> Q d'"
    unfolding lifecycle_keeps_def by blast
  from assms(1) have kp: "\<And>d d'. Q d \<Longrightarrow> process env d sid = Inr d' \<Longrightarrow> Q d'"
    unfolding lifecycle_keeps_def by blast
  let ?r1 = "if state (sale_tab (fst w) sid) = ''draft''
             then call (\<lambda>d. quote env d sid) (Quote sid) w else Inr ((), w)"
  have q1: "Q (fst (world_of ?r1))"
    using kq [OF assms(2)] assms(2) by (rule call_if_keeps)
  show ?thesis
  proof (cases ?r1)
    case (Inl ew)
    then have "lifecycle env sid w = Inl ew" by (simp add: lifecycle_def)
    with q1 Inl show ?thesis by (simp add: world_of_def)
  next
    case (Inr uw)
    obtain u1 w1 where uw: "uw = (u1, w1)" by (cases uw)
    from q1 Inr uw have w1: "Q (fst w1)" by (simp add: world_of_simps)
    let ?r2 = "if state (sale_tab (fst w1) sid) = ''quotation''
               then call (\<lambda>d. confirm env d sid) (Confirm sid) w1 else Inr ((), w1)"
    have q2: "Q (fst (world_of ?r2))"
      using kc [OF w1] w1 by (rule call_if_keeps)
    show ?thesis
    proof (cases ?r2)
      case (Inl ew)
      then have "lifecycle env sid w = Inl ew" using Inr uw by (simp add: lifecycle_def)
      with q2 Inl show ?thesis by (simp add: world_of_def)
    next
      case r2: (Inr uw2)
      obtain u2 w2 where uw2: "uw2 = (u2, w2)" by (cases uw2)
      from q2 r2 uw2 have w2: "Q (fst w2)" by (simp add: world_of_simps)
      have "lifecycle env sid w = (if state (sale_tab (fst w2) sid) = ''confirmed''
                then call (\<lambda>d. process env d sid) (Process sid) w2 else Inr ((), w2))"
        using Inr uw r2 uw2 by (simp add: lifecycle_def)
      moreover have "Q (fst (world_of (if state (sale_tab (fst w2) sid) = ''confirmed''
                then call (\<lambda>d. process env d sid) (Process sid) w2 else Inr ((), w2))))"
        using kp [OF w2] w2 by (rule call_if_keeps)
      ultimately show ?thesis by simp
    qed
  qed
qed

lemma advance_sale_keeps_store:
  assumes "lifecycle_keeps env Q" and "Q (fst w)"
  shows "Q (fst (world_of (advance_sale env sid f w)))"
proof (cases "lifecycle env sid w")
  case (Inl ew)
  obtain e w1 where ew: "ew = (e, w1)" by (cases ew)
  from lifecycle_keeps_store [OF assms, of sid] Inl ew have "Q (fst w1)" by (simp add: world_of_simps)
  with Inl ew show ?thesis by (simp add: advance_sale_def world_of_simps)
next
  case (Inr uw)
  obtain u w1 where uw: "uw = (u, w1)" by (cases uw)
  from lifecycle_keeps_store [OF assms, of sid] Inr uw have "Q (fst w1)" by (simp add: world_of_simps)
  with Inr uw show ?thesis by (simp add: advance_sale_def world_of_simps Let_def)
qed

lemma advance_sales_keeps_store:
  assumes "lifecycle_keeps env Q" and "Q (fst w)"
  shows "Q (fst (world_of (advance_sales env sales f w)))"
  using assms(2)
proof (induction sales arbitrary: f w)
  case Nil
  then show ?case by (simp add: world_of_simps)
next
  case (Cons sid rest)
  show ?case
  proof (cases "advance_sale env sid f w")
    case (Inl ew)
    obtain e w1 where ew: "ew = (e, w1)" by (cases ew)
    from advance_sale_keeps_store [OF assms(1) Cons.prems, of sid f] Inl ew have "Q (fst w1)"
      by (simp add: world_of_simps)
    with Inl ew show ?thesis by (simp add: world_of_simps)
  next
    case (Inr fw)
    obtain f1 w1 where fw: "fw = (f1, w1)" by (cases fw)
    from advance_sale_keeps_store [OF assms(1) Cons.prems, of sid f] Inr fw have "Q (fst w1)"
      by (simp add: world_of_simps)
    then have "Q (fst (world_of (advance_sales env rest f1 w1)))" by (rule Cons.IH)
    with Inr fw show ?thesis by simp
  qed
qed

lemma advance_sales_append:
  "advance_sales env (pre @ rest) f w =
     (case advance_sales env pre f w of Inl e \<Rightarrow> Inl e | Inr (f1, w1) \<Rightarrow> advance_sales env rest f1 w1)"
  by (induction pre arbitrary: f w) (auto split: sum.splits)

lemma advance_sale_missing_invoice:
  assumes "lifecycle env sid w1 = Inr ((), w2)"
    and "invoices (sale_tab (fst w2) sid) = []"
    and "invoice_method (sale_tab (fst w2) sid) = ''order''"
  shows "advance_sale env sid f w1 =
           Inl (UserError ''not_customer_invoice'' [reference (sale_tab (fst w2) sid)], w2)"
  using assms by (simp add: advance_sale_def)

text \<open>
  Claim C4: when the sales before it in the list were advanced without an error and
  the sale, after its own lifecycle steps, has no invoice and the invoice method
  \<^verbatim>\<open>order\<close>, \<^verbatim>\<open>workflow_to_end\<close> raises the user error \<^verbatim>\<open>not_customer_invoice\<close>
  with the reference of that sale. Up to the error the operation has only called
  the lifecycle steps: its trace holds no \<^verbatim>\<open>Invoice.write\<close>, no \<^verbatim>\<open>Invoice.post\<close>
  and no statement line write, and every property of the store that the lifecycle
  steps keep (the invoices, the payments) still holds.
\<close>

theorem workflow_to_end_missing_invoice:
  assumes "advance_sales env pre \<lparr>staged_invoices = [], to_post = [], invoice_var = None\<rparr>
             (d, tr @ [WorkflowToEnd (pre @ sid # rest)]) = Inr (f1, w1)"
    and "lifecycle env sid w1 = Inr ((), w2)"
    and "invoices (sale_tab (fst w2) sid) = []"
    and "invoice_method (sale_tab (fst w2) sid) = ''order''"
  shows "workflow_to_end env (pre @ sid # rest) (d, tr) =
           Inl (UserError ''not_customer_invoice'' [reference (sale_tab (fst w2) sid)], w2) \<and>
         (\<exists>evs. snd w2 = tr @ WorkflowToEnd (pre @ sid # rest) # evs \<and> list_all is_lifecycle evs) \<and>
         (\<forall>Q. lifecycle_keeps env Q \<and> Q d \<longrightarrow> Q (fst w2))"
proof -
  let ?f0 = "\<lparr>staged_invoices = [], to_post = [], invoice_var = None\<rparr>"
  let ?w0 = "(d, tr @ [WorkflowToEnd (pre @ sid # rest)])"
  let ?err = "UserError ''not_customer_invoice'' [reference (sale_tab (fst w2) sid)]"
  have one: "advance_sale env sid f1 w1 = Inl (?err, w2)"
    using assms(2-4) by (rule advance_sale_missing_invoice)
  have loop: "advance_sales env (pre @ sid # rest) ?f0 ?w0 = Inl (?err, w2)"
    unfolding advance_sales_append using assms(1) one by simp
  have run: "workflow_to_end env (pre @ sid # rest) (d, tr) = Inl (?err, w2)"
    unfolding workflow_to_end_def using loop by simp
  have "extends is_lifecycle ?w0 (world_of (advance_sales env (pre @ sid # rest) ?f0 ?w0))"
    by (rule advance_sales_extends)
  then have "extends is_lifecycle ?w0 w2" unfolding loop by (simp add: world_of_def)
  then have "\<exists>evs. snd w2 = tr @ WorkflowToEnd (pre @ sid # rest) # evs \<and> list_all is_lifecycle evs"
    by (auto simp: extends_def)
  moreover have "\<forall>Q. lifecycle_keeps env Q \<and> Q d \<longrightarrow> Q (fst w2)"
  proof (intro allI impI)
    fix Q assume q: "lifecycle_keeps env Q \<and> Q d"
    then have "Q (fst ?w0)" by simp
    from q have k: "lifecycle_keeps env Q" by simp
    from k \<open>Q (fst ?w0)\<close> have "Q (fst (world_of (advance_sales env (pre @ sid # rest) ?f0 ?w0)))"
      by (rule advance_sales_keeps_store)
    then show "Q (fst w2)" unfolding loop by (simp add: world_of_simps)
  qed
  ultimately show ?thesis using run by simp
qed

theorem workflow_to_end_missing_invoice_witness:
  "invoices (sale_tab (fst (world_of (lifecycle (sample_env\<lparr>process := set_state ''processing''\<rparr>) 1
      (sample_db, [WorkflowToEnd [2, 1]])))) 1) = [] \<and>
   invoice_method (sale_tab (fst (world_of (lifecycle (sample_env\<lparr>process := set_state ''processing''\<rparr>) 1
      (sample_db, [WorkflowToEnd [2, 1]])))) 1) = ''order'' \<and>
   workflow_to_end (sample_env\<lparr>process := set_state ''processing''\<rparr>) [2, 1] (sample_db, []) =
     Inl (UserError ''not_customer_invoice'' [Some ''S''],
          world_of (lifecycle (sample_env\<lparr>process := set_state ''processing''\<rparr>) 1
             (sample_db, [WorkflowToEnd [2, 1]]))) \<and>
   snd (world_of (lifecycle (sample_env\<lparr>process := set_state ''processing''\<rparr>) 1
             (sample_db, [WorkflowToEnd [2, 1]]))) = [WorkflowToEnd [2, 1], Quote 1, Confirm 1, Process 1] \<and>
   invoice_tab (fst (world_of (lifecycle (sample_env\<lparr>process := set_state ''processing''\<rparr>) 1
             (sample_db, [WorkflowToEnd [2, 1]])))) = invoice_tab sample_db"
proof -
  let ?env = "sample_env\<lparr>process := set_state ''processing''\<rparr>"
  let ?w2 = "world_of (lifecycle ?env 1 (sample_db, [WorkflowToEnd [2, 1]]))"
  have h1: "advance_sales ?env [2] \<lparr>staged_invoices = [], to_post = [], invoice_var = None\<rparr>
             (sample_db, [] @ [WorkflowToEnd ([2] @ 1 # [])]) =
            Inr (\<lparr>staged_invoices = [], to_post = [], invoice_var = Some 12\<rparr>, (sample_db, [WorkflowToEnd [2, 1]]))"
    by (simp add: sample_simps run_defs)
  have h2: "lifecycle ?env 1 (sample_db, [WorkflowToEnd [2, 1]]) = Inr ((), ?w2)"
    by (simp add: sample_simps run_defs)
  have h3: "invoices (sale_tab (fst ?w2) 1) = []"
    by (simp add: sample_simps run_defs)
  have h4: "invoice_method (sale_tab (fst ?w2) 1) = ''order''"
    by (simp add: sample_simps run_defs)
  have r: "reference (sale_tab (fst ?w2) 1) = Some ''S''"
    by (simp add: sample_simps run_defs)
  have l: "snd ?w2 = [WorkflowToEnd [2, 1], Quote 1, Confirm 1, Process 1]"
    by (simp add: sample_simps run_defs)
  have k: "lifecycle_keeps ?env (\<lambda>d. invoice_tab d = invoice_tab sample_db)"
    by (auto simp: lifecycle_keeps_def sample_env_fields set_state_def)
  note c = workflow_to_end_missing_invoice [OF h1 h2 h3 h4]
  from c have run: "workflow_to_end ?env ([2] @ 1 # []) (sample_db, []) =
      Inl (UserError ''not_customer_invoice'' [reference (sale_tab (fst ?w2) 1)], ?w2)"
    by (rule conjunct1)
  from c have "\<forall>Q. lifecycle_keeps ?env Q \<and> Q sample_db \<longrightarrow> Q (fst ?w2)"
    by (rule conjunct2 [THEN conjunct2])
  then have "lifecycle_keeps ?env (\<lambda>d. invoice_tab d = invoice_tab sample_db) \<and>
      invoice_tab sample_db = invoice_tab sample_db \<longrightarrow> invoice_tab (fst ?w2) = invoice_tab sample_db"
    by (rule spec)
  with k have keep: "invoice_tab (fst ?w2) = invoice_tab sample_db" by simp
  from run r have "workflow_to_end ?env [2, 1] (sample_db, []) =
      Inl (UserError ''not_customer_invoice'' [Some ''S''], ?w2)" by simp
  with h3 h4 l keep show ?thesis by blast
qed
















text \<open>
  Claim C2 fails on the code. The party a payment is compared with and re-homed to
  is the party of the last invoice the first loop visited, not of the invoice the
  payment is attributed to: run on the sales 3 and 2, the payment of sale 3, of
  party 1 and attributed to invoice 11 of party 1, is written with party 2, the party
  of invoice 12 of sale 2.
\<close>

theorem workflow_to_end_party_of_other_invoice:
  "posted_invoices sample_db (sale_tab sample_db 3) = [11] \<and>
   invoice_party (invoice_tab sample_db 11) = 1 \<and>
   map payment_party (payments (sale_tab sample_db 3)) = [Some 1] \<and>
   snd (world_of (workflow_to_end sample_env [3, 2] (sample_db, []))) =
     [WorkflowToEnd [3, 2], StatementLineWrite [(3, 3, \<lparr>new_invoice = 11, new_party = Some 2\<rparr>)], Do [3, 2]] \<and>
   map payment_party (payments (sale_tab (fst (world_of (workflow_to_end sample_env [3, 2] (sample_db, [])))) 3)) = [Some 2]"
  by (simp add: sample_simps run_defs)

section \<open>Verification: payment wizard controller\<close>

lemma extends_mono: "extends P w w' \<Longrightarrow> (\<And>ev. P ev \<Longrightarrow> Q ev) \<Longrightarrow> extends Q w w'"
  by (auto simp: extends_def list_all_iff)

lemma is_lifecycle_not_settlement: "is_lifecycle ev \<Longrightarrow> \<not> is_settlement ev"
  by (cases ev) simp_all

lemma post_invoices_extends:
  "extends (\<lambda>ev. \<not> is_settlement ev) w (world_of (post_invoices env f w))"
  by (auto simp: post_invoices_def extends_def call_log)

lemma workflow_to_end_extends:
  "extends (\<lambda>ev. \<not> is_settlement ev) (fst w0, snd w0 @ [WorkflowToEnd sales])
     (world_of (workflow_to_end env sales w0))"
  unfolding workflow_to_end_def
proof (intro bind_extends)
  show "extends (\<lambda>ev. \<not> is_settlement ev) (fst w0, snd w0 @ [WorkflowToEnd sales])
     (world_of (advance_sales env sales \<lparr>staged_invoices = [], to_post = [], invoice_var = None\<rparr>
        (fst w0, snd w0 @ [WorkflowToEnd sales])))"
    by (rule extends_mono [OF advance_sales_extends]) (rule is_lifecycle_not_settlement)
next
  fix f w1
  show "extends (\<lambda>ev. \<not> is_settlement ev) w1
          (world_of (if to_post f \<noteq> [] then post_invoices env f w1 else Inr ((), w1)))"
    by (simp add: post_invoices_extends world_of_simps extends_refl)
next
  fix f w1 u w2
  show "extends (\<lambda>ev. \<not> is_settlement ev) w2
          (world_of
            (case settle_sales env (fst w2) (invoice_var f) sales ([], []) of
             Inl e \<Rightarrow> Inl (e, w2)
             | Inr (to_write, to_do) \<Rightarrow>
                 let w3 = if to_write \<noteq> [] then write_payments to_write w2 else w2
                 in if to_do \<noteq> [] then call (\<lambda>d. do_sales env d to_do) (Do to_do) w3
                    else Inr ((), w3)))"
  proof (cases "settle_sales env (fst w2) (invoice_var f) sales ([], [])")
    case (Inl e)
    then show ?thesis by (simp add: world_of_simps extends_refl)
  next
    case (Inr st)
    obtain to_write to_do where st: "st = (to_write, to_do)" by (cases st)
    let ?w3 = "if to_write \<noteq> [] then write_payments to_write w2 else w2"
    have a: "extends (\<lambda>ev. \<not> is_settlement ev) w2 ?w3"
      by (simp add: extends_def write_payments_def)
    have b: "extends (\<lambda>ev. \<not> is_settlement ev) ?w3
       (world_of (if to_do \<noteq> [] then call (\<lambda>d. do_sales env d to_do) (Do to_do) ?w3 else Inr ((), ?w3)))"
      by (rule call_if_extends) simp
    from extends_trans [OF a b] Inr st show ?thesis by (simp add: Let_def)
  qed
qed

lemma workflow_to_end_settlements:
  "settlements (snd (world_of (workflow_to_end env sales w0))) = settlements (snd w0) + 1"
proof -
  from workflow_to_end_extends [of w0 sales env]
  obtain evs where "snd (world_of (workflow_to_end env sales w0)) = (snd w0 @ [WorkflowToEnd sales]) @ evs"
    "list_all (\<lambda>ev. \<not> is_settlement ev) evs"
    by (auto simp: extends_def)
  then show ?thesis by (simp add: settlements_def list_all_iff filter_empty_conv [THEN iffD2])
qed

text \<open>
  Claim C5: once the first part of \<^verbatim>\<open>transition_pay_\<close> (statements, number,
  account, optional payment) has returned, leaving the world \<open>w1\<close>, the next state is
  \<^verbatim>\<open>start\<close> when the total differs from the paid amount; else \<^verbatim>\<open>end\<close>, with the
  world untouched, for a sale that is not a draft; else the description is set to the
  reference, the sale saved, and \<^verbatim>\<open>workflow_to_end\<close> run on the sale, its error
  raised or \<^verbatim>\<open>end\<close> returned. The transition runs the settlement at most once, and
  not at all on a sale that is not a draft.
\<close>

theorem transition_pay_next_state:
  assumes "pay_commit env form active_id w = Inr ((), w1)"
  shows "(total_amount (sale_tab (fst w1) active_id) \<noteq> Some (sum_list (map amount (payments (sale_tab (fst w1) active_id)))) \<longrightarrow>
            transition_pay env form active_id w = Inr (''start'', w1)) \<and>
         (total_amount (sale_tab (fst w1) active_id) = Some (sum_list (map amount (payments (sale_tab (fst w1) active_id)))) \<longrightarrow>
            (state (sale_tab (fst w1) active_id) \<noteq> ''draft'' \<longrightarrow>
               transition_pay env form active_id w = Inr (''end'', w1)) \<and>
            (state (sale_tab (fst w1) active_id) = ''draft'' \<longrightarrow>
               transition_pay env form active_id w =
                 (case workflow_to_end env [active_id]
                         ((fst w1)\<lparr>sale_tab := (sale_tab (fst w1))
                             (active_id := (sale_tab (fst w1) active_id)
                                \<lparr>description := reference (sale_tab (fst w1) active_id)\<rparr>)\<rparr>,
                          snd w1 @ [SaleSave active_id]) of
                    Inl e \<Rightarrow> Inl e
                  | Inr (u, w2) \<Rightarrow> Inr (''end'', w2)) \<and>
               settlements (snd (world_of (transition_pay env form active_id w))) = settlements (snd w1) + 1)) \<and>
         settlements (snd (world_of (transition_pay env form active_id w))) \<le> settlements (snd w1) + 1 \<and>
         (state (sale_tab (fst w1) active_id) \<noteq> ''draft'' \<longrightarrow>
            settlements (snd (world_of (transition_pay env form active_id w))) = settlements (snd w1))"
proof -
  let ?s = "sale_tab (fst w1) active_id"
  let ?paid = "sum_list (map amount (payments ?s))"
  let ?saved = "((fst w1)\<lparr>sale_tab := (sale_tab (fst w1))(active_id := ?s\<lparr>description := reference ?s\<rparr>)\<rparr>,
                          snd w1 @ [SaleSave active_id])"
  have tp: "transition_pay env form active_id w = pay_next env active_id w1"
    using assms by (simp add: transition_pay_def)
  have start: "total_amount ?s \<noteq> Some ?paid \<Longrightarrow> pay_next env active_id w1 = Inr (''start'', w1)"
    by (simp add: pay_next_def paid_amount_eq Let_def)
  have fin: "total_amount ?s = Some ?paid \<Longrightarrow> state ?s \<noteq> ''draft'' \<Longrightarrow>
      pay_next env active_id w1 = Inr (''end'', w1)"
    by (simp add: pay_next_def paid_amount_eq Let_def)
  have settle: "total_amount ?s = Some ?paid \<Longrightarrow> state ?s = ''draft'' \<Longrightarrow>
      pay_next env active_id w1 =
        (case workflow_to_end env [active_id] ?saved of Inl e \<Rightarrow> Inl e | Inr (u, w2) \<Rightarrow> Inr (''end'', w2))"
    by (simp add: pay_next_def paid_amount_eq Let_def)
  have wo: "world_of (case workflow_to_end env [active_id] ?saved of Inl e \<Rightarrow> Inl e | Inr (u, w2) \<Rightarrow> Inr (''end'', w2))
      = world_of (workflow_to_end env [active_id] ?saved)"
    by (simp add: world_of_def split: sum.splits)
  have cnt: "total_amount ?s = Some ?paid \<Longrightarrow> state ?s = ''draft'' \<Longrightarrow>
      settlements (snd (world_of (pay_next env active_id w1))) = settlements (snd w1) + 1"
    by (simp add: settle wo workflow_to_end_settlements) (simp add: settlements_def)
  show ?thesis
    unfolding tp
    by (cases "total_amount ?s = Some ?paid"; cases "state ?s = ''draft''")
       (simp_all add: start fin settle [symmetric] cnt world_of_simps)
qed

theorem transition_pay_next_state_witness:
  "pay_commit sample_env \<lparr>form_journal = 1, form_journal_name = ''Cash'', payment_amount = 100\<rparr> 5 (sample_db, []) =
     Inr ((), world_of (pay_commit sample_env \<lparr>form_journal = 1, form_journal_name = ''Cash'', payment_amount = 100\<rparr> 5 (sample_db, []))) \<and>
   transition_pay sample_env \<lparr>form_journal = 1, form_journal_name = ''Cash'', payment_amount = 100\<rparr> 5 (sample_db, []) =
     Inr (''end'', world_of (transition_pay sample_env \<lparr>form_journal = 1, form_journal_name = ''Cash'', payment_amount = 100\<rparr> 5 (sample_db, []))) \<and>
   settlements (snd (world_of (transition_pay sample_env \<lparr>form_journal = 1, form_journal_name = ''Cash'', payment_amount = 100\<rparr> 5 (sample_db, [])))) = 1 \<and>
   transition_pay sample_env \<lparr>form_journal = 1, form_journal_name = ''Cash'', payment_amount = 30\<rparr> 5 (sample_db, []) =
     Inr (''start'', world_of (pay_commit sample_env \<lparr>form_journal = 1, form_journal_name = ''Cash'', payment_amount = 30\<rparr> 5 (sample_db, [])))"
proof -
  let ?f = "\<lparr>form_journal = 1, form_journal_name = ''Cash'', payment_amount = 100\<rparr>"
  let ?g = "\<lparr>form_journal = 1, form_journal_name = ''Cash'', payment_amount = 30\<rparr>"
  let ?w1 = "world_of (pay_commit sample_env ?f 5 (sample_db, []))"
  let ?v1 = "world_of (pay_commit sample_env ?g 5 (sample_db, []))"
  have c: "pay_commit sample_env ?f 5 (sample_db, []) = Inr ((), ?w1)"
    by (simp add: pay_commit_def draft_statements_def save_payment_def sample_db_def sample_simps run_defs)
  have c': "pay_commit sample_env ?g 5 (sample_db, []) = Inr ((), ?v1)"
    by (simp add: pay_commit_def draft_statements_def save_payment_def sample_db_def sample_simps run_defs)
  have s: "total_amount (sale_tab (fst ?w1) 5) = Some (sum_list (map amount (payments (sale_tab (fst ?w1) 5))))"
      "state (sale_tab (fst ?w1) 5) = ''draft''" "settlements (snd ?w1) = 0"
    by (simp_all add: pay_commit_def draft_statements_def save_payment_def sample_db_def sample_simps run_defs settlements_def)
  have s': "total_amount (sale_tab (fst ?v1) 5) \<noteq> Some (sum_list (map amount (payments (sale_tab (fst ?v1) 5))))"
    by (simp add: pay_commit_def draft_statements_def save_payment_def sample_db_def sample_simps run_defs)
  have e: "transition_pay sample_env ?f 5 (sample_db, []) =
     Inr (''end'', world_of (transition_pay sample_env ?f 5 (sample_db, [])))"
    by (simp add: transition_pay_def pay_next_def paid_amount_eq pay_commit_def draft_statements_def save_payment_def sample_db_def sample_simps run_defs)
  from transition_pay_next_state [OF c] s(1,2)
  have "settlements (snd (world_of (transition_pay sample_env ?f 5 (sample_db, [])))) = settlements (snd ?w1) + 1"
    by blast
  with s(3) have n: "settlements (snd (world_of (transition_pay sample_env ?f 5 (sample_db, [])))) = 1"
    by simp
  from transition_pay_next_state [OF c'] s' have "transition_pay sample_env ?g 5 (sample_db, []) = Inr (''start'', ?v1)"
    by blast
  with n c e show ?thesis by blast
qed

text \<open>
  Claim C10: \<^verbatim>\<open>default_start\<close> returns defaults only if the sale or the user has a
  device. With neither, the user with id 0 passes the guard and the read of
  \<^verbatim>\<open>sale_device.journal\<close> raises \<^verbatim>\<open>AttributeError\<close>; any other user gets the user
  error \<^verbatim>\<open>not_sale_device\<close>.
\<close>

theorem default_start_needs_device:
  "(\<forall>d. default_start s usr = Inr d \<longrightarrow> sale_device s \<noteq> None \<or> user_sale_device usr \<noteq> None) \<and>
   (sale_device s = None \<and> user_sale_device usr = None \<longrightarrow>
      default_start s usr =
        (if user_id usr = 0 then Inl (AttributeError ''journal'') else Inl (UserError ''not_sale_device'' [])))"
  by (auto simp: default_start_def Let_def split: option.splits)

theorem default_start_needs_device_witness:
  "sale_device (sample_sale 1 ''draft'' (Some 100) [] []) = None \<and>
   default_start (sample_sale 1 ''draft'' (Some 100) [] []) \<lparr>user_id = 0, user_sale_device = None\<rparr> =
     Inl (AttributeError ''journal'') \<and>
   default_start (sample_sale 1 ''draft'' (Some 100) [] []) \<lparr>user_id = 7, user_sale_device = None\<rparr> =
     Inl (UserError ''not_sale_device'' []) \<and>
   default_start (sample_sale 1 ''draft'' (Some 100) [sample_payment 1 40] [])
       \<lparr>user_id = 7, user_sale_device = Some \<lparr>journal = Some 1, journals = [1, 2]\<rparr>\<rparr> =
     Inr \<lparr>default_journal = Some 1, default_journals = [1, 2], default_payment_amount = Some 60,
          default_currency_digits = 2, default_party = 1\<rparr>"
proof -
  let ?s = "sample_sale 1 ''draft'' (Some 100) [] []"
  have n: "sale_device ?s = None" by (simp add: sample_sale_def)
  from default_start_needs_device [of ?s "\<lparr>user_id = 0, user_sale_device = None\<rparr>"] n
  have a: "default_start ?s \<lparr>user_id = 0, user_sale_device = None\<rparr> = Inl (AttributeError ''journal'')"
    by simp
  from default_start_needs_device [of ?s "\<lparr>user_id = 7, user_sale_device = None\<rparr>"] n
  have b: "default_start ?s \<lparr>user_id = 7, user_sale_device = None\<rparr> = Inl (UserError ''not_sale_device'' [])"
    by simp
  have c: "default_start (sample_sale 1 ''draft'' (Some 100) [sample_payment 1 40] [])
       \<lparr>user_id = 7, user_sale_device = Some \<lparr>journal = Some 1, journals = [1, 2]\<rparr>\<rparr> =
     Inr \<lparr>default_journal = Some 1, default_journals = [1, 2], default_payment_amount = Some 60,
          default_currency_digits = 2, default_party = 1\<rparr>"
    by (simp add: default_start_def paid_amount_eq sample_sale_def sample_payment_def)
  from n a b c show ?thesis by simp
qed

section \<open>Verification: ledger reconciler\<close>

lemma signed_amount_append: "signed_amount d (xs @ ys) = signed_amount d xs + signed_amount d ys"
  by (simp add: signed_amount_def)

lemma collect_lines_to_pay_eq:
  "collect_lines_to_pay d ls c =
     (fst c @ filter (unreconciled d) ls, snd c + signed_amount d (filter (unreconciled d) ls))"
  by (induction ls arbitrary: c) (simp_all add: unreconciled_def signed_amount_def add.assoc)

lemma collect_invoices_eq:
  "collect_invoices d invs c =
     (fst c @ filter (unreconciled d) (concat (map (\<lambda>i. lines_to_pay (invoice_tab d i)) invs)),
      snd c + signed_amount d (filter (unreconciled d) (concat (map (\<lambda>i. lines_to_pay (invoice_tab d i)) invs))))"
  by (induction invs arbitrary: c) (simp_all add: collect_lines_to_pay_eq signed_amount_append add.assoc signed_amount_def)

lemma collect_move_lines_eq:
  "collect_move_lines d (Some a) ls c =
     Inr (fst c @ filter (\<lambda>l. unreconciled d l \<and> account (ledger d l) = a) ls,
          snd c + signed_amount d (filter (\<lambda>l. unreconciled d l \<and> account (ledger d l) = a) ls))"
  by (induction ls arbitrary: c) (simp_all add: unreconciled_def signed_amount_def add.assoc)

lemma collect_payments_eq:
  "collect_payments d (Some a) ps c =
     Inr (fst c @ filter (\<lambda>l. unreconciled d l \<and> account (ledger d l) = a)
                    (concat (map (\<lambda>p. case move p of None \<Rightarrow> [] | Some ls \<Rightarrow> ls) ps)),
          snd c + signed_amount d (filter (\<lambda>l. unreconciled d l \<and> account (ledger d l) = a)
                    (concat (map (\<lambda>p. case move p of None \<Rightarrow> [] | Some ls \<Rightarrow> ls) ps))))"
proof (induction ps arbitrary: c)
  case Nil
  then show ?case by (simp add: signed_amount_def)
next
  case (Cons p ps)
  show ?case
  proof (cases "move p")
    case None
    then show ?thesis by (simp add: Cons.IH)
  next
    case (Some ls)
    then show ?thesis
      by (simp add: Cons.IH collect_move_lines_eq signed_amount_append add.assoc)
  qed
qed

lemma collected_candidates:
  "collect_payments d (Some a) (payments s) (collect_invoices d (invoices s) ([], 0)) =
     Inr (candidate_lines d s a, signed_amount d (candidate_lines d s a))"
  by (simp add: collect_payments_eq collect_invoices_eq candidate_lines_def move_lines_def signed_amount_append)

text \<open>
  Claim C3: for a sale whose party has a receivable account, the lines and the amount
  the loops collect are the candidate lines and their signed amount. They are passed
  to \<^verbatim>\<open>Line.reconcile\<close>, as one group, when the list is not empty and the amount is
  exactly zero; otherwise the sale is skipped: nothing is raised and the world (the
  ledger with it) is unchanged.
\<close>

theorem reconcile_sale_zero_sum_group:
  assumes "account_receivable (party_tab d (party (sale_tab d sid))) = Some a"
  shows "(candidate_lines d (sale_tab d sid) a \<noteq> [] \<and>
          signed_amount d (candidate_lines d (sale_tab d sid) a) = 0 \<longrightarrow>
            reconcile_sale env sid (d, tr) =
              call (\<lambda>d'. reconcile env d' (candidate_lines d (sale_tab d sid) a))
                (Reconcile (candidate_lines d (sale_tab d sid) a)) (d, tr) \<and>
            snd (world_of (reconcile_sale env sid (d, tr))) =
              tr @ [Reconcile (candidate_lines d (sale_tab d sid) a)]) \<and>
         (candidate_lines d (sale_tab d sid) a = [] \<or>
          signed_amount d (candidate_lines d (sale_tab d sid) a) \<noteq> 0 \<longrightarrow>
            reconcile_sale env sid (d, tr) = Inr ((), (d, tr)))"
proof -
  have "reconcile_sale env sid (d, tr) =
     (if candidate_lines d (sale_tab d sid) a \<noteq> [] \<and> signed_amount d (candidate_lines d (sale_tab d sid) a) = 0
      then call (\<lambda>d'. reconcile env d' (candidate_lines d (sale_tab d sid) a))
                (Reconcile (candidate_lines d (sale_tab d sid) a)) (d, tr)
      else Inr ((), (d, tr)))"
    using assms by (simp add: reconcile_sale_def Let_def collected_candidates)
  then show ?thesis by (auto simp: call_log)
qed

theorem reconcile_sale_zero_sum_group_witness:
  "account_receivable (party_tab sample_db (party (sale_tab sample_db 3))) = Some 5 \<and>
   candidate_lines sample_db (sale_tab sample_db 3) 5 = [31, 32] \<and>
   signed_amount sample_db [31, 32] = 0 \<and>
   snd (world_of (reconcile_sale sample_env 3 (sample_db, []))) = [Reconcile [31, 32]] \<and>
   account_receivable (party_tab sample_db (party (sale_tab sample_db 2))) = Some 5 \<and>
   candidate_lines sample_db (sale_tab sample_db 2) 5 = [] \<and>
   reconcile_sale sample_env 2 (sample_db, []) = Inr ((), (sample_db, []))"
proof -
  have a3: "account_receivable (party_tab sample_db (party (sale_tab sample_db 3))) = Some 5"
    by (simp add: sample_simps)
  have a2: "account_receivable (party_tab sample_db (party (sale_tab sample_db 2))) = Some 5"
    by (simp add: sample_simps)
  have c3: "candidate_lines sample_db (sale_tab sample_db 3) 5 = [31, 32]"
    by (simp add: sample_simps candidate_lines_def move_lines_def unreconciled_def)
  have s3: "signed_amount sample_db [31, 32] = 0"
    by (simp add: sample_simps signed_amount_def)
  have c2: "candidate_lines sample_db (sale_tab sample_db 2) 5 = []"
    by (simp add: sample_simps candidate_lines_def move_lines_def unreconciled_def)
  from reconcile_sale_zero_sum_group [OF a3, of sample_env "[]"] c3 s3
  have r3: "snd (world_of (reconcile_sale sample_env 3 (sample_db, []))) = [Reconcile [31, 32]]"
    by (simp add: call_log)
  from reconcile_sale_zero_sum_group [OF a2, of sample_env "[]"] c2
  have r2: "reconcile_sale sample_env 2 (sample_db, []) = Inr ((), (sample_db, []))"
    by simp
  from a3 a2 c3 s3 c2 r3 r2 show ?thesis by simp
qed

lemma collect_move_lines_no_account:
  "collect_move_lines d None ls c =
     (if list_ex (unreconciled d) ls then Inl (AttributeError ''id'') else Inr c)"
  by (induction ls arbitrary: c) (simp_all add: unreconciled_def)

lemma collect_payments_no_account:
  "collect_payments d None ps c =
     (if list_ex (unreconciled d) (concat (map (\<lambda>p. case move p of None \<Rightarrow> [] | Some ls \<Rightarrow> ls) ps))
      then Inl (AttributeError ''id'') else Inr c)"
proof (induction ps arbitrary: c)
  case Nil
  then show ?case by simp
next
  case (Cons p ps)
  show ?case
  proof (cases "move p")
    case None
    then show ?thesis by (simp add: Cons.IH)
  next
    case (Some ls)
    then show ?thesis by (simp add: Cons.IH collect_move_lines_no_account)
  qed
qed

lemma transition_start_append:
  "transition_start env (pre @ rest) w =
     (case transition_start env pre w of Inl e \<Rightarrow> Inl e | Inr (x, w1) \<Rightarrow> transition_start env rest w1)"
  by (induction pre arbitrary: w) (auto split: sum.splits)

text \<open>
  Claim C9: when \<^verbatim>\<open>transition_start\<close> reaches, in the world \<open>w1\<close>, a sale whose party
  has no receivable account, an unreconciled line in a move of one of its payments
  makes the comparison of the accounts raise \<^verbatim>\<open>AttributeError\<close> (no user error of
  the module), for the sale and so for the transition; the transition returns
  normally only if there is no such line.
\<close>

theorem transition_start_no_receivable_account:
  assumes "transition_start env pre w = Inr (x, w1)"
    and "account_receivable (party_tab (fst w1) (party (sale_tab (fst w1) sid))) = None"
  shows "(list_ex (unreconciled (fst w1)) (move_lines (sale_tab (fst w1) sid)) \<longrightarrow>
            reconcile_sale env sid w1 = Inl (AttributeError ''id'', w1) \<and>
            transition_start env (pre @ sid # rest) w = Inl (AttributeError ''id'', w1)) \<and>
         ((\<exists>r. transition_start env (pre @ sid # rest) w = Inr r) \<longrightarrow>
            \<not> list_ex (unreconciled (fst w1)) (move_lines (sale_tab (fst w1) sid)))"
proof -
  have step: "list_ex (unreconciled (fst w1)) (move_lines (sale_tab (fst w1) sid)) \<Longrightarrow>
      reconcile_sale env sid w1 = Inl (AttributeError ''id'', w1)"
    using assms(2) by (simp add: reconcile_sale_def Let_def collect_payments_no_account move_lines_def)
  have run: "transition_start env (pre @ sid # rest) w =
      (case reconcile_sale env sid w1 of Inl e \<Rightarrow> Inl e | Inr (u, w2) \<Rightarrow> transition_start env rest w2)"
    unfolding transition_start_append using assms(1) by simp
  show ?thesis unfolding run using step by auto
qed

theorem transition_start_no_receivable_account_witness:
  "account_receivable (party_tab sample_db (party (sale_tab sample_db 4))) = None \<and>
   list_ex (unreconciled sample_db) (move_lines (sale_tab sample_db 4)) \<and>
   transition_start sample_env [2, 4, 3] (sample_db, []) = Inl (AttributeError ''id'', (sample_db, []))"
proof -
  have p: "transition_start sample_env [2] (sample_db, []) = Inr (''end'', (sample_db, []))"
    by (simp add: sample_simps reconcile_sale_def Let_def)
  have a: "account_receivable (party_tab (fst (sample_db, [])) (party (sale_tab (fst (sample_db, [])) 4))) = None"
    by (simp add: sample_simps)
  have u: "list_ex (unreconciled sample_db) (move_lines (sale_tab sample_db 4))"
    by (simp add: sample_simps move_lines_def unreconciled_def)
  from transition_start_no_receivable_account [OF p a, of "[3]"] u
  have "transition_start sample_env ([2] @ 4 # [3]) (sample_db, []) = Inl (AttributeError ''id'', (sample_db, []))"
    by simp
  with a u show ?thesis by simp
qed

end
